theory Spec2Isabelle
  imports Complex_Main "HOL-Library.Word"
begin

section \<open>Values shared by all components\<close>

text \<open>
  A Go \<open>error\<close> is an interface value that may be \<open>nil\<close>: it is modelled as
  \<open>error option\<close>, with \<open>None\<close> for \<open>nil\<close>. The constructors are the ways the
  repository builds errors: \<open>fmt.Errorf\<close> with a plain message, \<open>fmt.Errorf\<close> wrapping
  another error with \<open>%w\<close>, the \<open>ValidationErrors\<close> slice of the validation framework and
  the error of a cancelled context (\<open>ctx.Err()\<close>).
\<close>

record ValidationError =
  Field :: string
  Message :: string

datatype error =
    Errorf string
  | Wrapf string error
  | ValidationErrors "ValidationError list"
  | ContextErr

text \<open>
  \<open>time.Duration\<close> is a signed count of nanoseconds. The code only compares durations
  with zero and with each other, so they are integers here.
\<close>

type_synonym duration = int

definition Millisecond :: duration where
  "Millisecond = 1000000"

definition Second :: duration where
  "Second = 1000000000"

text \<open>
  A \<open>*slog.Logger\<close> is a handle: either the process-wide default returned by
  \<open>slog.Default()\<close> or a logger built by the caller. A nil pointer is \<open>None\<close> of
  \<open>logger option\<close>. Log output itself is not part of the model: no branch of the code
  depends on it.
\<close>

datatype logger = SlogDefault | SlogLogger nat

text \<open>
  How a call ends: it returns, it panics, or it waits for an event that the
  environment never delivers.
\<close>

datatype 'a outcome = Returned 'a | Panicked | Blocked

text \<open>
  \<open>make([]*Metric, 0, n)\<close> panics (\<open>makeslice: cap out of range\<close>) when \<open>n\<close> is
  negative or when \<open>n\<close> pointers take more bytes than the runtime can allocate. The
  bound is the one of the runtime on 64-bit platforms with 48 address bits, where a
  Go \<open>int\<close> has 64 bits and a pointer takes 8 bytes: \<open>2 ^ 48\<close> bytes, that is
  \<open>2 ^ 45\<close> pointers. A machine that runs out of memory below that bound is outside
  the model.
\<close>

definition maxSliceCap :: int where
  "maxSliceCap = 2 ^ 45"

definition cap_in_range :: "int \<Rightarrow> bool" where
  "cap_in_range n = (0 \<le> n \<and> n \<le> maxSliceCap)"

section \<open>Metric (metric.go)\<close>

datatype field_value =
    FloatField real
  | IntField int
  | BoolField bool
  | StringField string

record Metric =
  Measurement :: string
  Tags :: "string \<rightharpoonup> string"
  Fields :: "string \<rightharpoonup> field_value"
  Timestamp :: int

text \<open>\<open>len(m.Fields) == 0\<close> holds exactly when the map has no key.\<close>

definition Validate :: "Metric \<Rightarrow> error option" where
  "Validate m =
     (if Measurement m = [] then Some (Errorf ''measurement name is required'')
      else if Fields m = Map.empty then Some (Errorf ''at least one field is required'')
      else None)"

definition NewMetric :: "string \<Rightarrow> int \<Rightarrow> Metric" where
  "NewMetric measurement now =
     \<lparr>Measurement = measurement, Tags = Map.empty, Fields = Map.empty, Timestamp = now\<rparr>"

definition WithTag :: "string \<Rightarrow> string \<Rightarrow> Metric \<Rightarrow> Metric" where
  "WithTag k v m = m\<lparr>Tags := (Tags m)(k \<mapsto> v)\<rparr>"

definition WithField :: "string \<Rightarrow> field_value \<Rightarrow> Metric \<Rightarrow> Metric" where
  "WithField k v m = m\<lparr>Fields := (Fields m)(k \<mapsto> v)\<rparr>"

section \<open>Backend (backend.go)\<close>

text \<open>
  A backend is an object behind the interface \<open>Name / Initialize / Write / Close /
  Healthy\<close>. Its answers may depend on everything that was done to it before, so the
  object is modelled by the history of the calls it has received together with one
  answer function per method, each reading that history. Every deterministic
  implementation of the interface is of this shape. \<open>Healthy\<close> is a query and leaves
  the history as it is. The history doubles as the record of the batches a backend
  was handed, like the \<open>written\<close> slice of the tests' mock backend.
\<close>

datatype bcall = CallInitialize | CallWrite "Metric list" | CallClose

record Backend =
  Name :: string
  history :: "bcall list"
  InitializeR :: "bcall list \<Rightarrow> error option"
  WriteR :: "bcall list \<Rightarrow> Metric list \<Rightarrow> error option"
  CloseR :: "bcall list \<Rightarrow> error option"
  HealthyR :: "bcall list \<Rightarrow> bool"

definition Initialize :: "Backend \<Rightarrow> error option \<times> Backend" where
  "Initialize b = (InitializeR b (history b), b\<lparr>history := history b @ [CallInitialize]\<rparr>)"

definition Write :: "Backend \<Rightarrow> Metric list \<Rightarrow> error option \<times> Backend" where
  "Write b metrics =
     (WriteR b (history b) metrics, b\<lparr>history := history b @ [CallWrite metrics]\<rparr>)"

definition Close :: "Backend \<Rightarrow> error option \<times> Backend" where
  "Close b = (CloseR b (history b), b\<lparr>history := history b @ [CallClose]\<rparr>)"

definition Healthy :: "Backend \<Rightarrow> bool" where
  "Healthy b = HealthyR b (history b)"

text \<open>The batches a backend has been handed so far, oldest first.\<close>

fun written :: "bcall list \<Rightarrow> Metric list list" where
  "written [] = []"
| "written (CallWrite batch # cs) = batch # written cs"
| "written (c # cs) = written cs"

section \<open>Pipeline (pipeline.go)\<close>

record PipelineConfig =
  BatchSize :: int
  FlushInterval :: duration
  RetryAttempts :: int
  RetryDelay :: duration
  Logger :: "logger option"

definition DefaultPipelineConfig :: PipelineConfig where
  "DefaultPipelineConfig =
     \<lparr>BatchSize = 10, FlushInterval = 10 * Second, RetryAttempts = 3,
      RetryDelay = 1 * Second, Logger = Some SlogDefault\<rparr>"

text \<open>
  The fields of the \<open>Pipeline\<close> struct. The mutex, the wait group and the \<open>done\<close>
  channel only coordinate goroutines and have no counterpart in this sequential
  model. The backends are held by value: each registration is an object of its own.
  The fields are unexported and \<open>NewPipeline\<close> is the only place that builds the
  struct, so a pipeline is a value that \<open>NewPipeline\<close> has returned, possibly after
  calls of the methods below.
\<close>

record Pipeline =
  backends :: "Backend list"
  batchSize :: int
  flushInterval :: duration
  retryAttempts :: int
  retryDelay :: duration
  buffer :: "Metric list"
  logger :: logger

text \<open>
  \<open>NewPipeline\<close> has no error result. After putting the defaults in, it allocates
  the buffer with the batch size as its capacity, which panics when the batch size is
  beyond what \<open>make\<close> accepts.
\<close>

definition NewPipeline :: "PipelineConfig \<Rightarrow> Pipeline outcome" where
  "NewPipeline cfg0 =
     (let cfg1 = (if BatchSize cfg0 \<le> 0 then cfg0\<lparr>BatchSize := 10\<rparr> else cfg0);
          cfg2 = (if FlushInterval cfg1 \<le> 0 then cfg1\<lparr>FlushInterval := 10 * Second\<rparr> else cfg1);
          cfg3 = (if RetryAttempts cfg2 \<le> 0 then cfg2\<lparr>RetryAttempts := 3\<rparr> else cfg2);
          cfg4 = (if RetryDelay cfg3 \<le> 0 then cfg3\<lparr>RetryDelay := 1 * Second\<rparr> else cfg3);
          cfg = (if Logger cfg4 = None then cfg4\<lparr>Logger := Some SlogDefault\<rparr> else cfg4)
      in if \<not> cap_in_range (BatchSize cfg) then Panicked
         else Returned
           \<lparr>backends = [],
            batchSize = BatchSize cfg,
            flushInterval = FlushInterval cfg,
            retryAttempts = RetryAttempts cfg,
            retryDelay = RetryDelay cfg,
            buffer = [],
            logger = (case Logger cfg of Some l \<Rightarrow> l | None \<Rightarrow> SlogDefault)\<rparr>)"

definition AddBackend :: "Backend \<Rightarrow> Pipeline \<Rightarrow> Pipeline" where
  "AddBackend b p = p\<lparr>backends := backends p @ [b]\<rparr>"

definition BufferLen :: "Pipeline \<Rightarrow> int" where
  "BufferLen p = int (length (buffer p))"

definition BackendCount :: "Pipeline \<Rightarrow> int" where
  "BackendCount p = int (length (backends p))"

text \<open>
  \<open>Push\<close> returns nothing to its caller. The model returns the pipeline after the call
  and a flag telling whether the call launched the goroutine that flushes a full
  batch (\<open>shouldFlush\<close>). That goroutine runs concurrently with the caller; what it
  does is \<open>Flush\<close> below, and when it does it is outside a sequential model.
\<close>

definition Push :: "Metric \<Rightarrow> Pipeline \<Rightarrow> Pipeline \<times> bool" where
  "Push m p =
     (case Validate m of
        Some err \<Rightarrow> (p, False)
      | None \<Rightarrow>
          (let p' = p\<lparr>buffer := buffer p @ [m]\<rparr>;
               shouldFlush = (int (length (buffer p')) \<ge> batchSize p')
           in (p', shouldFlush)))"

text \<open>
  A \<open>context.Context\<close> as the pipeline observes it. The only place where the
  pipeline itself looks at its context is the wait between two write attempts
  (\<open>select\<close> on \<open>ctx.Done()\<close> and \<open>time.After(retryDelay)\<close>). \<open>Background\<close> is a
  context that is not cancelled while the operation runs. \<open>CancelAfter n\<close> is a
  context that is cancelled (or whose deadline passes) so that the next \<open>n\<close> waits
  still run to their end and every later wait finds \<open>ctx.Done()\<close> ready; a context
  that is cancelled already is \<open>CancelAfter 0\<close>. \<open>await\<close> is one such wait: it tells
  whether the context won, and gives the context as later waits see it.
\<close>

datatype Context = Background | CancelAfter nat

fun await :: "Context \<Rightarrow> bool \<times> Context" where
  "await Background = (False, Background)"
| "await (CancelAfter 0) = (True, CancelAfter 0)"
| "await (CancelAfter (Suc n)) = (False, CancelAfter n)"

text \<open>\<open>completes ctx n\<close>: the next \<open>n\<close> waits under \<open>ctx\<close> all run to their end.\<close>

fun completes :: "Context \<Rightarrow> nat \<Rightarrow> bool" where
  "completes Background n = True"
| "completes (CancelAfter m) n = (n \<le> m)"

text \<open>\<open>elapse n ctx\<close>: the context as waits see it once \<open>n\<close> waits have run to their end.\<close>

fun elapse :: "nat \<Rightarrow> Context \<Rightarrow> Context" where
  "elapse n Background = Background"
| "elapse n (CancelAfter m) = CancelAfter (m - n)"

text \<open>
  The loop of \<open>writeWithRetry\<close>, from the value \<open>attempt\<close> of its counter on, with
  \<open>lastErr\<close> as it stands. The counter is a Go \<open>int\<close>; it is not bounded here, since
  it could only overflow after \<open>2 ^ 63\<close> failed writes.
\<close>

function writeWithRetry_loop ::
  "Pipeline \<Rightarrow> Context \<Rightarrow> Backend \<Rightarrow> Metric list \<Rightarrow> int \<Rightarrow> error option
     \<Rightarrow> error option \<times> Backend \<times> Context" where
  "writeWithRetry_loop p ctx b metrics attempt lastErr =
     (if attempt \<le> retryAttempts p then
        (case Write b metrics of
           (None, b') \<Rightarrow> (None, b', ctx)
         | (Some err, b') \<Rightarrow>
             (if attempt < retryAttempts p then
                (case await ctx of
                   (True, ctx') \<Rightarrow> (Some ContextErr, b', ctx')
                 | (False, ctx') \<Rightarrow>
                     writeWithRetry_loop p ctx' b' metrics (attempt + 1) (Some err))
              else writeWithRetry_loop p ctx b' metrics (attempt + 1) (Some err)))
      else (lastErr, b, ctx))"
  by pat_completeness auto
termination
  by (relation "measure (\<lambda>(p, ctx, b, metrics, attempt, lastErr). nat (retryAttempts p + 1 - attempt))")
     auto

declare writeWithRetry_loop.simps [simp del]

definition writeWithRetry ::
  "Pipeline \<Rightarrow> Context \<Rightarrow> Backend \<Rightarrow> Metric list \<Rightarrow> error option \<times> Backend \<times> Context" where
  "writeWithRetry p ctx b metrics = writeWithRetry_loop p ctx b metrics 1 None"

text \<open>How many \<open>Write\<close> calls separate two states of the same backend.\<close>

definition writes_between :: "Backend \<Rightarrow> Backend \<Rightarrow> nat" where
  "writes_between b b' = length (written (history b')) - length (written (history b))"

text \<open>
  The loop of \<open>Flush\<close> over the registered backends, from position \<open>i\<close> on. Besides
  the error and the backends after the calls it returns the context as later waits see
  it and the order of the \<open>Write\<close> calls: the position of the called backend, once
  per call, first call first.
\<close>

fun flush_loop ::
  "Pipeline \<Rightarrow> Context \<Rightarrow> Metric list \<Rightarrow> nat \<Rightarrow> Backend list \<Rightarrow> error option
     \<Rightarrow> error option \<times> Backend list \<times> Context \<times> nat list" where
  "flush_loop p ctx batch i [] lastErr = (lastErr, [], ctx, [])"
| "flush_loop p ctx batch i (b # bs) lastErr =
     (if \<not> Healthy b then
        (case flush_loop p ctx batch (Suc i) bs lastErr of
           (e, bs', ctx', tr) \<Rightarrow> (e, b # bs', ctx', tr))
      else
        (case writeWithRetry p ctx b batch of
           (err, b', ctx1) \<Rightarrow>
             (case flush_loop p ctx1 batch (Suc i) bs
                     (case err of None \<Rightarrow> lastErr | Some e \<Rightarrow> Some e) of
                (e, bs', ctx2, tr) \<Rightarrow>
                  (e, b' # bs', ctx2, replicate (writes_between b b') i @ tr))))"

text \<open>
  \<open>Flush\<close> takes the whole buffer as the batch and leaves an empty buffer behind; the
  swap happens under the mutex, so it is one step. With an empty buffer it returns at
  once. The new buffer is made with the capacity \<open>batchSize\<close>, the very allocation
  that \<open>NewPipeline\<close> has made for this pipeline before; no method changes
  \<open>batchSize\<close>.
\<close>

definition Flush :: "Pipeline \<Rightarrow> Context \<Rightarrow> error option \<times> Pipeline \<times> Context \<times> nat list" where
  "Flush p ctx =
     (if buffer p = [] then (None, p, ctx, [])
      else
        (let batch = buffer p;
             p1 = p\<lparr>buffer := []\<rparr>
         in (case flush_loop p1 ctx batch 0 (backends p1) None of
               (lastErr, bs', ctx', tr) \<Rightarrow> (lastErr, p1\<lparr>backends := bs'\<rparr>, ctx', tr))))"

text \<open>
  What \<open>lastErr\<close> holds after a loop that met the results \<open>rs\<close> in this order,
  each non-nil error overwriting the one before.
\<close>

fun last_error :: "error option list \<Rightarrow> error option \<Rightarrow> error option" where
  "last_error [] lastErr = lastErr"
| "last_error (None # rs) lastErr = last_error rs lastErr"
| "last_error (Some e # rs) lastErr = last_error rs (Some e)"

text \<open>
  \<open>Start\<close> initializes the backends in order and returns the first error; backends
  after a failing one are not initialized. The goroutine it launches last
  (\<open>flushLoop\<close>, a \<open>Flush\<close> on every tick of a timer) is concurrent and not part of
  the model.
\<close>

fun start_loop :: "Backend list \<Rightarrow> error option \<times> Backend list" where
  "start_loop [] = (None, [])"
| "start_loop (b # bs) =
     (case Initialize b of
        (Some err, b') \<Rightarrow> (Some err, b' # bs)
      | (None, b') \<Rightarrow> (case start_loop bs of (e, bs') \<Rightarrow> (e, b' # bs')))"

definition Start :: "Pipeline \<Rightarrow> error option \<times> Pipeline" where
  "Start p = (case start_loop (backends p) of (e, bs') \<Rightarrow> (e, p\<lparr>backends := bs'\<rparr>))"

fun close_loop :: "Backend list \<Rightarrow> error option \<Rightarrow> error option \<times> Backend list" where
  "close_loop [] lastErr = (lastErr, [])"
| "close_loop (b # bs) lastErr =
     (case Close b of
        (err, b') \<Rightarrow>
          (case close_loop bs (case err of None \<Rightarrow> lastErr | Some e \<Rightarrow> Some e) of
             (e, bs') \<Rightarrow> (e, b' # bs')))"

text \<open>\<open>Stop\<close>: one last \<open>Flush\<close>, whose error is only logged, then \<open>Close\<close> on every backend.\<close>

definition Stop :: "Pipeline \<Rightarrow> Context \<Rightarrow> error option \<times> Pipeline" where
  "Stop p ctx =
     (case Flush p ctx of
        (flushErr, p1, ctx', tr) \<Rightarrow>
          (case close_loop (backends p1) None of
             (lastErr, bs') \<Rightarrow> (lastErr, p1\<lparr>backends := bs'\<rparr>)))"

section \<open>Poll statistics (stats.go)\<close>

text \<open>
  The counters are \<open>int64\<close>: 64-bit words whose addition wraps around and which are
  read as signed numbers by \<open>sint\<close>. \<open>metricCount\<close> is a Go \<open>int\<close>; \<open>int64(metricCount)\<close>
  is the word of that number. The read-write mutex of \<open>statsTracker\<close> makes each of
  \<open>recordPoll\<close> and \<open>snapshot\<close> one step; the tracker is its \<open>stats\<close> field.
\<close>

record PollStats =
  TotalPolls :: "64 word"
  SuccessfulPolls :: "64 word"
  FailedPolls :: "64 word"
  TotalMetrics :: "64 word"
  LastDuration :: duration

definition zeroStats :: PollStats where
  "zeroStats = \<lparr>TotalPolls = 0, SuccessfulPolls = 0, FailedPolls = 0, TotalMetrics = 0,
                 LastDuration = 0\<rparr>"

definition recordPoll :: "bool \<Rightarrow> int \<Rightarrow> duration \<Rightarrow> PollStats \<Rightarrow> PollStats" where
  "recordPoll success metricCount d s =
     (let s1 = s\<lparr>TotalPolls := TotalPolls s + 1\<rparr>;
          s2 = (if success
                then s1\<lparr>SuccessfulPolls := SuccessfulPolls s1 + 1,
                        TotalMetrics := TotalMetrics s1 + word_of_int metricCount\<rparr>
                else s1\<lparr>FailedPolls := FailedPolls s1 + 1\<rparr>)
      in s2\<lparr>LastDuration := d\<rparr>)"


text \<open>A sequence of \<open>recordPoll\<close> calls, given by their arguments, first call first.\<close>

fun recordPolls :: "(bool \<times> int \<times> duration) list \<Rightarrow> PollStats \<Rightarrow> PollStats" where
  "recordPolls [] s = s"
| "recordPolls ((success, metricCount, d) # calls) s =
     recordPolls calls (recordPoll success metricCount d s)"

section \<open>Configuration (config.go, validation.go, logging.go)\<close>

text \<open>
  \<open>GlobalConfig\<close> and \<open>PipelineConfig\<close> both have fields \<open>BatchSize\<close>, \<open>RetryAttempts\<close>
  and \<open>RetryDelay\<close>; those of \<open>GlobalConfig\<close> carry the prefix \<open>Global\<close> here, and the
  \<open>Enabled\<close> flags carry the name of their section.
\<close>

record GlobalConfig =
  PollInterval :: duration
  LogLevel :: string
  GlobalBatchSize :: int
  GlobalRetryAttempts :: int
  GlobalRetryDelay :: duration

record InfluxDBConfig =
  InfluxEnabled :: bool
  URL :: string
  Token :: string
  Org :: string
  Bucket :: string

record PrometheusConfig =
  PrometheusEnabled :: bool
  Port :: int
  Path :: string

record Config =
  Global :: GlobalConfig
  InfluxDB :: InfluxDBConfig
  Prometheus :: PrometheusConfig

definition DefaultConfig :: Config where
  "DefaultConfig =
     \<lparr>Global = \<lparr>PollInterval = 10 * Second, LogLevel = ''info'', GlobalBatchSize = 10,
                 GlobalRetryAttempts = 3, GlobalRetryDelay = 1 * Second\<rparr>,
      InfluxDB = \<lparr>InfluxEnabled = False, URL = [], Token = [], Org = [], Bucket = []\<rparr>,
      Prometheus = \<lparr>PrometheusEnabled = False, Port = 9090, Path = ''/metrics''\<rparr>\<rparr>"

text \<open>
  What the configuration code takes from outside the repository: \<open>strings.ToLower\<close>,
  \<open>os.ReadFile\<close>, \<open>toml.Unmarshal\<close> (which overlays the parsed text on the
  configuration it is given) and the standard output that the echo backend writes
  to. They are a parameter, so every theorem holds whatever they do. A writer is
  given by the error, if any, that writing the lines of a batch meets.
\<close>

type_synonym writer = "bcall list \<Rightarrow> Metric list \<Rightarrow> error option"

record Env =
  ToLower :: "string \<Rightarrow> string"
  ReadFile :: "string \<Rightarrow> error + string"
  Unmarshal :: "string \<Rightarrow> Config \<Rightarrow> error + Config"
  Stdout :: writer

definition validateGlobal :: "Env \<Rightarrow> Config \<Rightarrow> ValidationError list" where
  "validateGlobal env c =
     (let errs0 = [];
          errs1 = (if PollInterval (Global c) \<le> 0
                   then errs0 @ [\<lparr>Field = ''global.poll_interval'', Message = ''must be positive''\<rparr>]
                   else errs0);
          errs2 = (if GlobalBatchSize (Global c) \<le> 0
                   then errs1 @ [\<lparr>Field = ''global.batch_size'', Message = ''must be positive''\<rparr>]
                   else errs1);
          validLevels = [''debug'', ''info'', ''warn'', ''error''];
          errs3 = (if ToLower env (LogLevel (Global c)) \<notin> set validLevels
                   then errs2 @ [\<lparr>Field = ''global.log_level'',
                                  Message = ''must be one of: debug, info, warn, error''\<rparr>]
                   else errs2)
      in errs3)"

definition validateInfluxDB :: "Config \<Rightarrow> ValidationError list" where
  "validateInfluxDB c =
     (if \<not> InfluxEnabled (InfluxDB c) then []
      else
        (if URL (InfluxDB c) = []
         then [\<lparr>Field = ''influxdb.url'', Message = ''required when InfluxDB is enabled''\<rparr>]
         else [])
        @ (if Token (InfluxDB c) = []
           then [\<lparr>Field = ''influxdb.token'', Message = ''required when InfluxDB is enabled''\<rparr>]
           else [])
        @ (if Org (InfluxDB c) = []
           then [\<lparr>Field = ''influxdb.org'', Message = ''required when InfluxDB is enabled''\<rparr>]
           else [])
        @ (if Bucket (InfluxDB c) = []
           then [\<lparr>Field = ''influxdb.bucket'', Message = ''required when InfluxDB is enabled''\<rparr>]
           else []))"

definition validatePrometheus :: "Config \<Rightarrow> ValidationError list" where
  "validatePrometheus c =
     (if \<not> PrometheusEnabled (Prometheus c) then []
      else
        (if Port (Prometheus c) \<le> 0 \<or> Port (Prometheus c) > 65535
         then [\<lparr>Field = ''prometheus.port'', Message = ''must be a valid port (1-65535)''\<rparr>]
         else [])
        @ (if Path (Prometheus c) = []
           then [\<lparr>Field = ''prometheus.path'', Message = ''required when Prometheus is enabled''\<rparr>]
           else [])
        @ (if Path (Prometheus c) \<noteq> [] \<and> take 1 (Path (Prometheus c)) \<noteq> ''/''
           then [\<lparr>Field = ''prometheus.path'', Message = ''must start with /''\<rparr>]
           else []))"

text \<open>\<open>Config.Validate\<close>; the name \<open>Validate\<close> is taken by \<open>Metric.Validate\<close> above.\<close>

definition Config_Validate :: "Env \<Rightarrow> Config \<Rightarrow> error option" where
  "Config_Validate env c =
     (let errs = validateGlobal env c @ validateInfluxDB c @ validatePrometheus c
      in if length errs > 0 then Some (ValidationErrors errs) else None)"

text \<open>
  \<open>LoadConfig\<close> returns a pointer and an error: a pair of options here, as
  \<open>handleReload\<close> looks at the error first and at the pointer afterwards.
\<close>

definition LoadConfig :: "Env \<Rightarrow> string \<Rightarrow> Config option \<times> error option" where
  "LoadConfig env path =
     (case ReadFile env path of
        Inl err \<Rightarrow> (None, Some (Wrapf ''failed to read config file'' err))
      | Inr data \<Rightarrow>
          (case Unmarshal env data DefaultConfig of
             Inl err \<Rightarrow> (None, Some (Wrapf ''failed to parse config file'' err))
           | Inr c \<Rightarrow>
               (case Config_Validate env c of
                  Some err \<Rightarrow> (None, Some (Wrapf ''invalid configuration'' err))
                | None \<Rightarrow> (Some c, None))))"

datatype Level = LevelDebug | LevelInfo | LevelWarn | LevelError

definition ParseLogLevel :: "Env \<Rightarrow> string \<Rightarrow> Level" where
  "ParseLogLevel env level =
     (let l = ToLower env level
      in if l = ''debug'' then LevelDebug
         else if l = ''warn'' then LevelWarn
         else if l = ''error'' then LevelError
         else LevelInfo)"

section \<open>The echo backend (backend.go)\<close>

text \<open>
  \<open>Echo\<close> starts healthy, is healthy after \<open>Initialize\<close> and unhealthy after
  \<open>Close\<close>. Its \<open>Write\<close> fails only when its writer does. What it prints is not
  tracked.
\<close>

fun echo_healthy :: "bool \<Rightarrow> bcall list \<Rightarrow> bool" where
  "echo_healthy h [] = h"
| "echo_healthy h (CallInitialize # cs) = echo_healthy True cs"
| "echo_healthy h (CallClose # cs) = echo_healthy False cs"
| "echo_healthy h (CallWrite batch # cs) = echo_healthy h cs"

definition NewEcho :: "Env \<Rightarrow> writer option \<Rightarrow> Backend" where
  "NewEcho env w =
     (let wr = (case w of None \<Rightarrow> Stdout env | Some w' \<Rightarrow> w')
      in \<lparr>Name = ''echo'',
          history = [],
          InitializeR = (\<lambda>h. None),
          WriteR = (\<lambda>h batch. case wr h batch of
                                 None \<Rightarrow> None
                               | Some err \<Rightarrow> Some (Wrapf ''failed to write metric'' err)),
          CloseR = (\<lambda>h. None),
          HealthyR = echo_healthy True\<rparr>)"

definition NewEchoStdout :: "Env \<Rightarrow> Backend" where
  "NewEchoStdout env = NewEcho env (Some (Stdout env))"

section \<open>Monitor (monitor.go)\<close>

text \<open>
  The fields of the \<open>Monitor\<close> struct that the code below reads or writes (\<open>backends\<close>
  is \<open>registered\<close> here, the name being taken by the pipeline's field). The collector
  is a Go closure that may answer differently on each call: \<open>collector m n\<close> is what
  its call number \<open>n\<close> (from 0) returns, together with the time that call took as
  \<open>collect\<close> measures it, and \<open>collected\<close> counts the calls made so far. \<open>launched\<close>
  counts the flush goroutines that \<open>Push\<close> has launched; the model does not run
  them. The signal handler is represented by the events that reach the loop of \<open>Run\<close>.
\<close>

record Monitor =
  mname :: string
  collector :: "nat \<Rightarrow> Metric list \<times> error option \<times> duration"
  collected :: nat
  launched :: nat
  pipeline :: "Pipeline option"
  levelVar :: "Level option"
  cfg :: Config
  cfgPath :: string
  echoMode :: bool
  runOnce :: bool
  reloadFn :: "(string \<Rightarrow> Config option \<times> error option) option"
  registered :: "Backend list"
  mlogger :: logger
  stats :: PollStats


definition addBackends :: "Env \<Rightarrow> Monitor \<Rightarrow> Pipeline \<Rightarrow> error option \<times> Pipeline" where
  "addBackends env m p =
     (let p1 = foldl (\<lambda>q b. AddBackend b q) p (registered m);
          p2 = (if echoMode m then AddBackend (NewEchoStdout env) p1 else p1)
      in if BackendCount p2 = 0
         then (Some (Errorf ''no backends configured (use WithBackend, WithEcho, or enable backends in config)''), p2)
         else (None, p2))"

text \<open>The loop of \<open>collect\<close> that pushes the collected metrics, counting launched flushes.\<close>

fun push_all :: "Metric list \<Rightarrow> Pipeline \<Rightarrow> nat \<Rightarrow> Pipeline \<times> nat" where
  "push_all [] p n = (p, n)"
| "push_all (metric # metrics) p n =
     (case Push metric p of
        (p', shouldFlush) \<Rightarrow> push_all metrics p' (if shouldFlush then Suc n else n))"

text \<open>
  \<open>collect\<close>. Calling \<open>Push\<close> on a \<open>nil\<close> pipeline would panic; \<open>Run\<close> always has set
  the pipeline before.
\<close>

definition collect :: "Monitor \<Rightarrow> Monitor outcome" where
  "collect m =
     (case collector m (collected m) of
        (metrics, err, d) \<Rightarrow>
          (let m1 = m\<lparr>collected := Suc (collected m)\<rparr>
           in if err \<noteq> None
              then Returned (m1\<lparr>stats := recordPoll False 0 d (stats m1)\<rparr>)
              else
                (let m2 = m1\<lparr>stats := recordPoll True (int (length metrics)) d (stats m1)\<rparr>
                 in if metrics = [] then Returned m2
                    else (case pipeline m2 of
                            None \<Rightarrow> Panicked
                          | Some p \<Rightarrow>
                              (case push_all metrics p (launched m2) of
                                 (p', n) \<Rightarrow> Returned (m2\<lparr>pipeline := Some p', launched := n\<rparr>))))))"

text \<open>
  \<open>handleReload\<close>, with the period of the ticker of \<open>Run\<close>. \<open>ticker.Reset\<close> panics
  on a period that is not positive, and reading the new configuration through a nil
  pointer panics.
\<close>

definition handleReload :: "Env \<Rightarrow> duration \<Rightarrow> Monitor \<Rightarrow> (duration \<times> Monitor) outcome" where
  "handleReload env ticker m =
     (let source =
            (case reloadFn m of
               Some fn \<Rightarrow> Some (fn (cfgPath m))
             | None \<Rightarrow> if cfgPath m \<noteq> [] then Some (LoadConfig env (cfgPath m)) else None)
      in case source of
           None \<Rightarrow> Returned (ticker, m)
         | Some (newCfg, err) \<Rightarrow>
             if err \<noteq> None then Returned (ticker, m)
             else
               (case newCfg of
                  None \<Rightarrow> Panicked
                | Some c \<Rightarrow>
                    if PollInterval (Global c) \<noteq> PollInterval (Global (cfg m))
                       \<and> PollInterval (Global c) \<le> 0
                    then Panicked
                    else
                      (let ticker' = (if PollInterval (Global c) \<noteq> PollInterval (Global (cfg m))
                                      then PollInterval (Global c) else ticker);
                           m1 = (if levelVar m \<noteq> None
                                    \<and> LogLevel (Global c) \<noteq> LogLevel (Global (cfg m))
                                 then m\<lparr>levelVar := Some (ParseLogLevel env (LogLevel (Global c)))\<rparr>
                                 else m)
                       in Returned (ticker', m1\<lparr>cfg := c\<rparr>))))"

text \<open>
  The events that the \<open>select\<close> of the polling loop waits for: the context is done,
  a reload is requested, the ticker fires.
\<close>

datatype loop_event = CtxDone | ReloadRequested | TickerFired

text \<open>
  The deferred call of \<open>Run\<close>: \<open>Stop\<close> under a context of its own, whose error
  is only logged.
\<close>

definition deferred_Stop :: "Context \<Rightarrow> Monitor \<Rightarrow> Monitor" where
  "deferred_Stop stopCtx m =
     (case pipeline m of
        None \<Rightarrow> m
      | Some p \<Rightarrow> (case Stop p stopCtx of (err, p') \<Rightarrow> m\<lparr>pipeline := Some p'\<rparr>))"

fun run_loop ::
  "Env \<Rightarrow> Context \<Rightarrow> loop_event list \<Rightarrow> duration \<Rightarrow> Monitor \<Rightarrow> (error option \<times> Monitor) outcome" where
  "run_loop env stopCtx [] ticker m = Blocked"
| "run_loop env stopCtx (CtxDone # evs) ticker m =
     (case collect m of
        Returned m' \<Rightarrow> Returned (None, deferred_Stop stopCtx m')
      | Panicked \<Rightarrow> Panicked
      | Blocked \<Rightarrow> Blocked)"
| "run_loop env stopCtx (ReloadRequested # evs) ticker m =
     (case handleReload env ticker m of
        Returned (ticker', m') \<Rightarrow> run_loop env stopCtx evs ticker' m'
      | Panicked \<Rightarrow> Panicked
      | Blocked \<Rightarrow> Blocked)"
| "run_loop env stopCtx (TickerFired # evs) ticker m =
     (case collect m of
        Returned m' \<Rightarrow> run_loop env stopCtx evs ticker m'
      | Panicked \<Rightarrow> Panicked
      | Blocked \<Rightarrow> Blocked)"

text \<open>
  \<open>Run\<close>, given the context under which the deferred \<open>Stop\<close> runs and the events
  that reach the polling loop, in their order. \<open>Run\<close> builds the pipeline first, so
  a panic of \<open>NewPipeline\<close> is a panic of \<open>Run\<close>. \<open>time.NewTicker\<close> panics on a
  period that is not positive.
\<close>

definition Run ::
  "Env \<Rightarrow> Context \<Rightarrow> loop_event list \<Rightarrow> Monitor \<Rightarrow> (error option \<times> Monitor) outcome" where
  "Run env stopCtx evs m =
     (let pipelineCfg =
            \<lparr>BatchSize = GlobalBatchSize (Global (cfg m)),
             FlushInterval = PollInterval (Global (cfg m)),
             RetryAttempts = GlobalRetryAttempts (Global (cfg m)),
             RetryDelay = GlobalRetryDelay (Global (cfg m)),
             Logger = Some (mlogger m)\<rparr>
      in case NewPipeline pipelineCfg of
           Panicked \<Rightarrow> Panicked
         | Blocked \<Rightarrow> Blocked
         | Returned p0 \<Rightarrow>
             (let m0 = m\<lparr>pipeline := Some p0\<rparr>
              in case addBackends env m0 p0 of
                   (Some err, p1) \<Rightarrow> Returned (Some err, m0\<lparr>pipeline := Some p1\<rparr>)
                 | (None, p1) \<Rightarrow>
                     (case Start p1 of
                        (Some err, p2) \<Rightarrow>
                          Returned (Some (Wrapf ''failed to start pipeline'' err),
                                    m0\<lparr>pipeline := Some p2\<rparr>)
                      | (None, p2) \<Rightarrow>
                          (case collect (m0\<lparr>pipeline := Some p2\<rparr>) of
                             Panicked \<Rightarrow> Panicked
                           | Blocked \<Rightarrow> Blocked
                           | Returned m1 \<Rightarrow>
                               if runOnce m1 then Returned (None, deferred_Stop stopCtx m1)
                               else if PollInterval (Global (cfg m1)) \<le> 0 then Panicked
                               else run_loop env stopCtx evs (PollInterval (Global (cfg m1))) m1))))"

section \<open>Backends of the tests and concrete inputs\<close>

text \<open>
  \<open>mockBackend\<close> of the tests answers every call with the errors it was built with
  and reports the health it was built with. \<open>retryBackend\<close> takes its \<open>Write\<close> from
  a function; \<open>failsBelow k\<close> is the one of \<open>TestPipelineRetry\<close>, which counts its
  calls and fails while the count is below \<open>k\<close>.
\<close>

definition mockBackend ::
  "string \<Rightarrow> bool \<Rightarrow> error option \<Rightarrow> error option \<Rightarrow> error option \<Rightarrow> Backend" where
  "mockBackend n h initErr writeErr closeErr =
     \<lparr>Name = n, history = [],
      InitializeR = (\<lambda>hs. initErr),
      WriteR = (\<lambda>hs metrics. writeErr),
      CloseR = (\<lambda>hs. closeErr),
      HealthyR = (\<lambda>hs. h)\<rparr>"

definition retryBackend ::
  "string \<Rightarrow> bool \<Rightarrow> (bcall list \<Rightarrow> Metric list \<Rightarrow> error option) \<Rightarrow> Backend" where
  "retryBackend n h writeFn =
     \<lparr>Name = n, history = [],
      InitializeR = (\<lambda>hs. None),
      WriteR = writeFn,
      CloseR = (\<lambda>hs. None),
      HealthyR = (\<lambda>hs. h)\<rparr>"

definition failsBelow :: "nat \<Rightarrow> bcall list \<Rightarrow> Metric list \<Rightarrow> error option" where
  "failsBelow k hs metrics =
     (if Suc (length (written hs)) < k then Some (Errorf ''transient error'') else None)"

text \<open>The metrics that the tests and the examples of the specification use.\<close>

definition cpuMetric :: Metric where
  "cpuMetric = WithField ''usage'' (FloatField 42.5) (NewMetric ''cpu'' 0)"



text \<open>
  An environment to run concrete inputs in: \<open>strings.ToLower\<close> on ASCII letters,
  no configuration file, a standard output that accepts every line.
\<close>

definition asciiLower :: "char \<Rightarrow> char" where
  "asciiLower c =
     (case map_of (zip ''ABCDEFGHIJKLMNOPQRSTUVWXYZ'' ''abcdefghijklmnopqrstuvwxyz'') c of
        Some l \<Rightarrow> l
      | None \<Rightarrow> c)"

definition stdEnv :: Env where
  "stdEnv =
     \<lparr>ToLower = map asciiLower,
      ReadFile = (\<lambda>path. Inl (Errorf ''no such file or directory'')),
      Unmarshal = (\<lambda>data c. Inr c),
      Stdout = (\<lambda>hs batch. None)\<rparr>"

text \<open>
  The monitor that \<open>New\<close> builds from a collector and a list of backends when no
  configuration is given: the default configuration, a logger of its own at level
  \<open>info\<close>, counters at zero.
\<close>

definition newMonitor ::
  "string \<Rightarrow> (nat \<Rightarrow> Metric list \<times> error option \<times> duration) \<Rightarrow> Backend list \<Rightarrow> Monitor" where
  "newMonitor n f bs =
     \<lparr>mname = n, collector = f, collected = 0, launched = 0, pipeline = None,
      levelVar = Some LevelInfo, cfg = DefaultConfig, cfgPath = [], echoMode = False,
      runOnce = False, reloadFn = None, registered = bs, mlogger = SlogLogger 0,
      stats = zeroStats\<rparr>"

text \<open>
  The collector of \<open>TestMonitorNoBackends\<close>, which returns no metric and no error,
  and three reload functions: one that returns the default configuration, one that
  returns neither a configuration nor an error, and one that returns a
  configuration whose poll interval is zero.
\<close>

definition noMetrics :: "nat \<Rightarrow> Metric list \<times> error option \<times> duration" where
  "noMetrics n = ([], None, 0)"

definition reloadDefault :: "string \<Rightarrow> Config option \<times> error option" where
  "reloadDefault path = (Some DefaultConfig, None)"

definition reloadNil :: "string \<Rightarrow> Config option \<times> error option" where
  "reloadNil path = (None, None)"

definition reloadZeroInterval :: "string \<Rightarrow> Config option \<times> error option" where
  "reloadZeroInterval path =
     (Some (DefaultConfig\<lparr>Global := (Global DefaultConfig)\<lparr>PollInterval := 0\<rparr>\<rparr>), None)"

text \<open>
  \<open>defaultPipeline\<close> is the pipeline that \<open>NewPipeline(DefaultPipelineConfig())\<close>
  returns, and \<open>pipelineWith bs ms\<close> is that pipeline after the backends \<open>bs\<close> have
  been added and the metrics \<open>ms\<close> pushed, one after the other.
\<close>

definition defaultPipeline :: Pipeline where
  "defaultPipeline =
     \<lparr>backends = [], batchSize = 10, flushInterval = 10 * Second, retryAttempts = 3,
      retryDelay = 1 * Second, buffer = [], logger = SlogDefault\<rparr>"

definition pipelineWith :: "Backend list \<Rightarrow> Metric list \<Rightarrow> Pipeline" where
  "pipelineWith bs ms =
     foldl (\<lambda>p m. fst (Push m p)) (foldl (\<lambda>p b. AddBackend b p) defaultPipeline bs) ms"

section \<open>Pipeline construction\<close>

lemma cap_in_range_default: "cap_in_range 10"
  by (simp add: cap_in_range_def maxSliceCap_def)

lemma NewPipeline_Returned:
  "BatchSize pc \<le> maxSliceCap
   \<Longrightarrow> NewPipeline pc
       = Returned
           \<lparr>backends = [],
            batchSize = (if BatchSize pc \<le> 0 then 10 else BatchSize pc),
            flushInterval = (if FlushInterval pc \<le> 0 then 10 * Second else FlushInterval pc),
            retryAttempts = (if RetryAttempts pc \<le> 0 then 3 else RetryAttempts pc),
            retryDelay = (if RetryDelay pc \<le> 0 then 1 * Second else RetryDelay pc),
            buffer = [],
            logger = (case Logger pc of None \<Rightarrow> SlogDefault | Some l \<Rightarrow> l)\<rparr>"
  using cap_in_range_default
  by (auto simp: NewPipeline_def Let_def cap_in_range_def split: option.splits)

lemma NewPipeline_Panicked:
  "maxSliceCap < BatchSize pc \<Longrightarrow> NewPipeline pc = Panicked"
  by (auto simp: NewPipeline_def Let_def cap_in_range_def maxSliceCap_def)

lemma NewPipeline_default: "NewPipeline DefaultPipelineConfig = Returned defaultPipeline"
  by (simp add: NewPipeline_def DefaultPipelineConfig_def defaultPipeline_def cap_in_range_def
        maxSliceCap_def Let_def)

text \<open>
  The batch size of a pipeline is one that \<open>make\<close> accepts as a capacity, and the
  methods keep it.
\<close>

lemma NewPipeline_cap:
  "NewPipeline pc = Returned p \<Longrightarrow> cap_in_range (batchSize p) \<and> 0 < batchSize p"
  by (auto simp: NewPipeline_def Let_def cap_in_range_def split: if_splits)

lemma batchSize_kept:
  "batchSize (AddBackend b p) = batchSize p"
  "batchSize (fst (Push m p)) = batchSize p"
  "batchSize (fst (snd (Flush p ctx))) = batchSize p"
  by (auto simp: AddBackend_def Push_def Flush_def Let_def split: option.splits prod.splits)

text \<open>
  C10, amended. \<open>NewPipeline\<close> has no error result. For every configuration whose
  batch size is at most the largest capacity that \<open>make\<close> accepts it returns a
  pipeline in which each of batch size, flush interval, retry attempts and retry
  delay is the configured value when that is positive and otherwise its default (10,
  10 seconds, 3, 1 second), and the logger is the configured one or, for nil, the
  default logger; so these four fields are strictly positive. For a larger batch
  size \<open>NewPipeline\<close> panics.
\<close>

theorem NewPipeline_defaults_positive:
  "(BatchSize pc \<le> maxSliceCap
      \<longrightarrow> (\<exists>p. NewPipeline pc = Returned p
            \<and> batchSize p = (if BatchSize pc \<le> 0 then 10 else BatchSize pc)
            \<and> flushInterval p = (if FlushInterval pc \<le> 0 then 10 * Second else FlushInterval pc)
            \<and> retryAttempts p = (if RetryAttempts pc \<le> 0 then 3 else RetryAttempts pc)
            \<and> retryDelay p = (if RetryDelay pc \<le> 0 then 1 * Second else RetryDelay pc)
            \<and> logger p = (case Logger pc of None \<Rightarrow> SlogDefault | Some l \<Rightarrow> l)
            \<and> backends p = [] \<and> buffer p = []
            \<and> 0 < batchSize p \<and> 0 < flushInterval p \<and> 0 < retryAttempts p \<and> 0 < retryDelay p))
   \<and> (maxSliceCap < BatchSize pc \<longrightarrow> NewPipeline pc = Panicked)"
  by (simp add: NewPipeline_Returned NewPipeline_Panicked Second_def)

theorem NewPipeline_defaults_positive_witness:
  "(\<exists>p. NewPipeline \<lparr>BatchSize = 0, FlushInterval = 0, RetryAttempts = 0, RetryDelay = 0, Logger = None\<rparr>
           = Returned p
        \<and> batchSize p = 10 \<and> flushInterval p = 10 * Second \<and> retryAttempts p = 3
        \<and> retryDelay p = 1 * Second \<and> logger p = SlogDefault)
   \<and> NewPipeline \<lparr>BatchSize = 2 ^ 62, FlushInterval = 0, RetryAttempts = 0, RetryDelay = 0, Logger = None\<rparr>
       = Panicked"
  using NewPipeline_defaults_positive[of "\<lparr>BatchSize = 0, FlushInterval = 0, RetryAttempts = 0, RetryDelay = 0, Logger = None\<rparr>"]
    NewPipeline_defaults_positive[of "\<lparr>BatchSize = 2 ^ 62, FlushInterval = 0, RetryAttempts = 0, RetryDelay = 0, Logger = None\<rparr>"]
  by (auto simp: maxSliceCap_def)

text \<open>
  C10 as stated fails. With a batch size of \<open>2 ^ 62\<close> the buffer cannot be made, and
  \<open>NewPipeline\<close> panics instead of returning a pipeline.
\<close>

theorem NewPipeline_defaults_positive_counterexample:
  "0 < BatchSize (DefaultPipelineConfig\<lparr>BatchSize := 2 ^ 62\<rparr>)
   \<and> NewPipeline (DefaultPipelineConfig\<lparr>BatchSize := 2 ^ 62\<rparr>) = Panicked"
  by (simp add: NewPipeline_def DefaultPipelineConfig_def cap_in_range_def maxSliceCap_def Let_def
        Second_def)

section \<open>Retrying a write\<close>

lemma Write_simps [simp]:
  "fst (Write b ms) = WriteR b (history b) ms"
  "snd (Write b ms) = b\<lparr>history := history b @ [CallWrite ms]\<rparr>"
  by (simp_all add: Write_def)

lemma wwr_loop_done:
  "retryAttempts p < attempt \<Longrightarrow> writeWithRetry_loop p ctx b metrics attempt le = (le, b, ctx)"
  by (subst writeWithRetry_loop.simps) simp

lemma wwr_loop_shape:
  "writeWithRetry_loop p ctx b batch attempt le = (e, b', ctx')
   \<Longrightarrow> \<exists>n. b' = b\<lparr>history := history b @ replicate n (CallWrite batch)\<rparr>
          \<and> int n \<le> max 0 (retryAttempts p + 1 - attempt)
          \<and> (attempt \<le> retryAttempts p \<longrightarrow> 1 \<le> n)"
proof (induction p ctx b batch attempt le arbitrary: e b' ctx' rule: writeWithRetry_loop.induct)
  case (1 p ctx b metrics attempt lastErr)
  show ?case
  proof (cases "attempt \<le> retryAttempts p")
    case False
    with "1.prems" have "b' = b" by (simp add: writeWithRetry_loop.simps)
    with False show ?thesis by (intro exI[of _ 0]) simp
  next
    case le: True
    show ?thesis
    proof (cases "WriteR b (history b) metrics")
      case None
      with le "1.prems" have "b' = b\<lparr>history := history b @ [CallWrite metrics]\<rparr>"
        by (subst (asm) writeWithRetry_loop.simps) (simp add: Write_def)
      with le show ?thesis by (intro exI[of _ 1]) simp
    next
      case (Some err)
      let ?b1 = "b\<lparr>history := history b @ [CallWrite metrics]\<rparr>"
      have W: "Write b metrics = (Some err, ?b1)" using Some by (simp add: Write_def)
      show ?thesis
      proof (cases "attempt < retryAttempts p")
        case lt: True
        obtain won ctx1 where aw: "await ctx = (won, ctx1)" by (cases "await ctx")
        show ?thesis
        proof (cases won)
          case True
          with le lt W aw "1.prems" have "b' = ?b1"
            by (subst (asm) writeWithRetry_loop.simps) simp
          with le show ?thesis by (intro exI[of _ 1]) simp
        next
          case False
          with le lt W aw "1.prems"
          have rec: "writeWithRetry_loop p ctx1 ?b1 metrics (attempt + 1) (Some err) = (e, b', ctx')"
            by (subst (asm) writeWithRetry_loop.simps) simp
          from "1.IH"(1)[OF le W[symmetric] refl lt aw[symmetric] _ rec] False
          obtain n where n: "b' = ?b1\<lparr>history := history ?b1 @ replicate n (CallWrite metrics)\<rparr>"
            "int n \<le> max 0 (retryAttempts p + 1 - (attempt + 1))" by auto
          show ?thesis
            using n le by (intro exI[of _ "Suc n"]) (auto simp: replicate_app_Cons_same)
        qed
      next
        case nlt: False
        with le W "1.prems"
        have rec: "writeWithRetry_loop p ctx ?b1 metrics (attempt + 1) (Some err) = (e, b', ctx')"
          by (subst (asm) writeWithRetry_loop.simps) simp
        from "1.IH"(2)[OF le W[symmetric] refl nlt rec]
        obtain n where n: "b' = ?b1\<lparr>history := history ?b1 @ replicate n (CallWrite metrics)\<rparr>"
            "int n \<le> max 0 (retryAttempts p + 1 - (attempt + 1))" by auto
        show ?thesis
          using n le by (intro exI[of _ "Suc n"]) (auto simp: replicate_app_Cons_same)
      qed
    qed
  qed
qed


lemma await_completes:
  "completes ctx (Suc j) \<Longrightarrow> await ctx = (False, elapse 1 ctx)"
  by (cases ctx; cases j) (auto simp: Suc_le_eq elim: lessE)

lemma completes_elapse:
  "completes ctx (Suc j) \<Longrightarrow> completes (elapse 1 ctx) j"
  by (cases ctx) auto

lemma elapse_elapse: "elapse j (elapse i ctx) = elapse (i + j) ctx"
  by (cases ctx) auto

lemma elapse_0 [simp]: "elapse 0 ctx = ctx"
  by (cases ctx) auto

lemma wwr_loop_succeeds_after:
  "\<forall>i<j. WriteR b (history b @ replicate i (CallWrite batch)) batch \<noteq> None
   \<Longrightarrow> WriteR b (history b @ replicate j (CallWrite batch)) batch = None
   \<Longrightarrow> attempt + int j \<le> retryAttempts p
   \<Longrightarrow> completes ctx j
   \<Longrightarrow> writeWithRetry_loop p ctx b batch attempt le
       = (None, b\<lparr>history := history b @ replicate (Suc j) (CallWrite batch)\<rparr>, elapse j ctx)"
proof (induction j arbitrary: b ctx attempt le)
  case 0
  then show ?case by (subst writeWithRetry_loop.simps) (simp add: Write_def)
next
  case (Suc j)
  let ?b1 = "b\<lparr>history := history b @ [CallWrite batch]\<rparr>"
  from Suc.prems(1) have "WriteR b (history b) batch \<noteq> None" by force
  then obtain err where err: "WriteR b (history b) batch = Some err" by auto
  have fails: "\<forall>i<j. WriteR ?b1 (history ?b1 @ replicate i (CallWrite batch)) batch \<noteq> None"
  proof (intro allI impI)
    fix i assume "i < j"
    then have "WriteR b (history b @ replicate (Suc i) (CallWrite batch)) batch \<noteq> None"
      using Suc.prems(1) by auto
    then show "WriteR ?b1 (history ?b1 @ replicate i (CallWrite batch)) batch \<noteq> None"
      by simp
  qed
  have ok: "WriteR ?b1 (history ?b1 @ replicate j (CallWrite batch)) batch = None"
    using Suc.prems(2) by simp
  have att: "(attempt + 1) + int j \<le> retryAttempts p" using Suc.prems(3) by simp
  have IH: "writeWithRetry_loop p (elapse 1 ctx) ?b1 batch (attempt + 1) (Some err)
       = (None, ?b1\<lparr>history := history ?b1 @ replicate (Suc j) (CallWrite batch)\<rparr>,
          elapse j (elapse 1 ctx))"
    by (rule Suc.IH[OF fails ok att completes_elapse[OF Suc.prems(4)]])
  have "attempt < retryAttempts p" "attempt \<le> retryAttempts p" using Suc.prems(3) by auto
  then show ?case
    using err await_completes[OF Suc.prems(4)] IH
    by (subst writeWithRetry_loop.simps) (simp add: Write_def elapse_elapse)
qed

lemma wwr_loop_always_fails:
  "\<forall>h m. WriteR b h m \<noteq> None
   \<Longrightarrow> attempt \<le> retryAttempts p
   \<Longrightarrow> n = nat (retryAttempts p + 1 - attempt)
   \<Longrightarrow> completes ctx (n - 1)
   \<Longrightarrow> writeWithRetry_loop p ctx b batch attempt le
       = (WriteR b (history b @ replicate (n - 1) (CallWrite batch)) batch,
          b\<lparr>history := history b @ replicate n (CallWrite batch)\<rparr>, elapse (n - 1) ctx)"
proof (induction n arbitrary: b ctx attempt le)
  case 0
  then show ?case by simp
next
  case (Suc n)
  let ?b1 = "b\<lparr>history := history b @ [CallWrite batch]\<rparr>"
  from Suc.prems(1) obtain err where err: "WriteR b (history b) batch = Some err" by auto
  show ?case
  proof (cases n)
    case 0
    with Suc.prems have "attempt = retryAttempts p" by simp
    then show ?thesis using err 0
      by (subst writeWithRetry_loop.simps) (simp add: Write_def wwr_loop_done)
  next
    case (Suc k)
    with Suc.prems have lt: "attempt < retryAttempts p" by simp
    have c: "completes ctx (Suc k)" using Suc.prems(4) Suc by simp
    have IH: "writeWithRetry_loop p (elapse 1 ctx) ?b1 batch (attempt + 1) (Some err)
       = (WriteR ?b1 (history ?b1 @ replicate (n - 1) (CallWrite batch)) batch,
          ?b1\<lparr>history := history ?b1 @ replicate n (CallWrite batch)\<rparr>, elapse (n - 1) (elapse 1 ctx))"
      apply (rule Suc.IH)
      using Suc.prems lt completes_elapse[OF c] Suc by auto
    show ?thesis
      using err lt await_completes[OF c] IH Suc
      by (subst writeWithRetry_loop.simps) (simp add: Write_def elapse_elapse replicate_app_Cons_same)
  qed
qed


section \<open>Flushing\<close>

lemma wwr_loop_ctx:
  "writeWithRetry_loop p ctx b batch attempt le = (e, b', ctx') \<Longrightarrow> \<exists>k. ctx' = elapse k ctx"
proof (induction p ctx b batch attempt le arbitrary: e b' ctx' rule: writeWithRetry_loop.induct)
  case (1 p ctx b metrics attempt lastErr)
  show ?case
  proof (cases "attempt \<le> retryAttempts p")
    case False
    with "1.prems" have "ctx' = ctx" by (simp add: wwr_loop_done)
    then show ?thesis by (intro exI[of _ 0]) simp
  next
    case le: True
    show ?thesis
    proof (cases "WriteR b (history b) metrics")
      case None
      with le "1.prems" have "ctx' = ctx"
        by (subst (asm) writeWithRetry_loop.simps) (simp add: Write_def)
      then show ?thesis by (intro exI[of _ 0]) simp
    next
      case (Some err)
      let ?b1 = "b\<lparr>history := history b @ [CallWrite metrics]\<rparr>"
      have W: "Write b metrics = (Some err, ?b1)" using Some by (simp add: Write_def)
      show ?thesis
      proof (cases "attempt < retryAttempts p")
        case lt: True
        obtain won ctx1 where aw: "await ctx = (won, ctx1)" by (cases "await ctx")
        have ctx1: "ctx1 = elapse 1 ctx" using aw
          by (cases ctx rule: await.cases) auto
        show ?thesis
        proof (cases won)
          case True
          with le lt W aw "1.prems" have "ctx' = ctx1"
            by (subst (asm) writeWithRetry_loop.simps) simp
          with ctx1 show ?thesis by blast
        next
          case False
          with le lt W aw "1.prems"
          have rec: "writeWithRetry_loop p ctx1 ?b1 metrics (attempt + 1) (Some err) = (e, b', ctx')"
            by (subst (asm) writeWithRetry_loop.simps) simp
          from "1.IH"(1)[OF le W[symmetric] refl lt aw[symmetric] _ rec] False
          obtain k where "ctx' = elapse k ctx1" by auto
          with ctx1 show ?thesis by (auto simp: elapse_elapse)
        qed
      next
        case nlt: False
        with le W "1.prems"
        have rec: "writeWithRetry_loop p ctx ?b1 metrics (attempt + 1) (Some err) = (e, b', ctx')"
          by (subst (asm) writeWithRetry_loop.simps) simp
        from "1.IH"(2)[OF le W[symmetric] refl nlt rec] show ?thesis .
      qed
    qed
  qed
qed

lemma wwr_Background:
  "writeWithRetry p Background b batch = (e, b', ctx') \<Longrightarrow> ctx' = Background"
  unfolding writeWithRetry_def by (drule wwr_loop_ctx) auto

lemma written_append [simp]: "written (xs @ ys) = written xs @ written ys"
  by (induction xs rule: written.induct) auto

lemma written_replicate [simp]: "written (replicate n (CallWrite batch)) = replicate n batch"
  by (induction n) auto

lemma wwr_shape:
  assumes "writeWithRetry p ctx b batch = (e, b', ctx')"
  shows "b' = b\<lparr>history := history b @ replicate (writes_between b b') (CallWrite batch)\<rparr>"
    and "0 < retryAttempts p \<Longrightarrow> 1 \<le> writes_between b b'"
    and "int (writes_between b b') \<le> max 0 (retryAttempts p)"
proof -
  from assms have "writeWithRetry_loop p ctx b batch 1 None = (e, b', ctx')"
    by (simp add: writeWithRetry_def)
  from wwr_loop_shape[OF this]
  obtain n where n: "b' = b\<lparr>history := history b @ replicate n (CallWrite batch)\<rparr>"
    "int n \<le> max 0 (retryAttempts p + 1 - 1)" "1 \<le> retryAttempts p \<longrightarrow> 1 \<le> n"
    by blast
  have "writes_between b b' = n" using n(1) by (simp add: writes_between_def)
  with n show "b' = b\<lparr>history := history b @ replicate (writes_between b b') (CallWrite batch)\<rparr>"
    and "0 < retryAttempts p \<Longrightarrow> 1 \<le> writes_between b b'"
    and "int (writes_between b b') \<le> max 0 (retryAttempts p)" by auto
qed

lemma flush_loop_trace:
  "flush_loop p ctx batch i bs le = (e, bs', ctx', tr)
   \<Longrightarrow> sorted tr \<and> (\<forall>x\<in>set tr. i \<le> x \<and> x < i + length bs) \<and> length bs' = length bs"
proof (induction bs arbitrary: i ctx le e bs' ctx' tr)
  case Nil
  then show ?case by simp
next
  case (Cons b bs)
  show ?case
  proof (cases "Healthy b")
    case False
    obtain e1 bs1 ctx1 tr1 where r: "flush_loop p ctx batch (Suc i) bs le = (e1, bs1, ctx1, tr1)"
      by (cases "flush_loop p ctx batch (Suc i) bs le") auto
    from Cons.IH[OF r] Cons.prems False r show ?thesis by fastforce
  next
    case True
    obtain err b1 c1 where w: "writeWithRetry p ctx b batch = (err, b1, c1)"
      by (cases "writeWithRetry p ctx b batch") auto
    obtain e1 bs1 ctx1 tr1 where
      r: "flush_loop p c1 batch (Suc i) bs (case err of None \<Rightarrow> le | Some e \<Rightarrow> Some e) = (e1, bs1, ctx1, tr1)"
      by (cases "flush_loop p c1 batch (Suc i) bs (case err of None \<Rightarrow> le | Some e \<Rightarrow> Some e)") auto
    from Cons.IH[OF r] Cons.prems True r w show ?thesis
      by (fastforce simp: sorted_append)
  qed
qed

lemma flush_loop_index:
  "(case flush_loop p ctx batch i bs le of (e, bs', ctx', tr) \<Rightarrow> (e, bs', ctx'))
   = (case flush_loop p ctx batch j bs le of (e, bs', ctx', tr) \<Rightarrow> (e, bs', ctx'))"
proof (induction bs arbitrary: i j ctx le)
  case Nil
  then show ?case by simp
next
  case (Cons b bs)
  show ?case
  proof (cases "Healthy b")
    case False
    with Cons.IH[of ctx "Suc i" le "Suc j"] show ?thesis
      by (auto split: prod.splits)
  next
    case True
    obtain err b1 c1 where w: "writeWithRetry p ctx b batch = (err, b1, c1)"
      by (cases "writeWithRetry p ctx b batch") auto
    with True Cons.IH[of c1 "Suc i" "case err of None \<Rightarrow> le | Some e \<Rightarrow> Some e" "Suc j"] show ?thesis
      by (auto split: prod.splits)
  qed
qed

lemma flush_loop_unhealthy:
  "\<not> Healthy b \<Longrightarrow> flush_loop p ctx batch i (xs @ b # ys) le = (e, bs', ctx', tr)
   \<Longrightarrow> bs' ! length xs = b \<and> (i + length xs) \<notin> set tr
       \<and> fst (flush_loop p ctx batch i (xs @ ys) le) = e"
proof (induction xs arbitrary: i ctx le e bs' ctx' tr)
  case Nil
  obtain e1 bs1 ctx1 tr1 where r: "flush_loop p ctx batch (Suc i) ys le = (e1, bs1, ctx1, tr1)"
    by (cases "flush_loop p ctx batch (Suc i) ys le") auto
  from flush_loop_trace[OF r] have "i \<notin> set tr1" by fastforce
  moreover have "fst (flush_loop p ctx batch i ys le) = e1"
    using flush_loop_index[of p ctx batch i ys le "Suc i"] r by (auto split: prod.splits)
  ultimately show ?case using Nil r by auto
next
  case (Cons x xs)
  show ?case
  proof (cases "Healthy x")
    case False
    obtain e1 bs1 ctx1 tr1 where r: "flush_loop p ctx batch (Suc i) (xs @ b # ys) le = (e1, bs1, ctx1, tr1)"
      by (cases "flush_loop p ctx batch (Suc i) (xs @ b # ys) le") auto
    from Cons.IH[OF Cons.prems(1) r] Cons.prems(2) False r show ?thesis
      by (auto split: prod.splits)
  next
    case True
    obtain err b1 c1 where w: "writeWithRetry p ctx x batch = (err, b1, c1)"
      by (cases "writeWithRetry p ctx x batch") auto
    obtain e1 bs1 ctx1 tr1 where
      r: "flush_loop p c1 batch (Suc i) (xs @ b # ys) (case err of None \<Rightarrow> le | Some e \<Rightarrow> Some e) = (e1, bs1, ctx1, tr1)"
      by (cases "flush_loop p c1 batch (Suc i) (xs @ b # ys) (case err of None \<Rightarrow> le | Some e \<Rightarrow> Some e)") auto
    from Cons.IH[OF Cons.prems(1) r] Cons.prems(2) True r w show ?thesis
      by (auto split: prod.splits)
  qed
qed


lemma wwr_loop_cong:
  "retryAttempts q = retryAttempts p
   \<Longrightarrow> writeWithRetry_loop q ctx b m a le = writeWithRetry_loop p ctx b m a le"
proof (induction p ctx b m a le rule: writeWithRetry_loop.induct)
  case (1 p ctx b metrics attempt lastErr)
  show ?case
    apply (subst writeWithRetry_loop.simps[of q])
    apply (subst writeWithRetry_loop.simps[of p])
    using 1 by (auto split: prod.splits option.splits bool.splits)
qed

lemma flush_loop_cong:
  "retryAttempts q = retryAttempts p
   \<Longrightarrow> flush_loop q ctx batch i bs le = flush_loop p ctx batch i bs le"
  by (induction bs arbitrary: ctx i le)
     (auto simp: writeWithRetry_def wwr_loop_cong[of q p] split: prod.splits)

section \<open>Pushing a metric\<close>

lemma Validate_invalid:
  "Measurement m = [] \<or> Fields m = Map.empty \<Longrightarrow> Validate m \<noteq> None"
  by (auto simp: Validate_def)

text \<open>
  C4. A metric whose measurement name is empty or whose field set is empty is dropped
  by \<open>Push\<close>: the call leaves the pipeline as it was, so the buffer and its length
  are unchanged and no backend has been touched, and it launches no flush. \<open>Push\<close>
  has no result through which an error could reach the caller. As the pipeline is
  the same as before the call, nothing that happens later can hand the metric to a
  backend.
\<close>

theorem Push_drops_invalid_metric:
  assumes "Measurement m = [] \<or> Fields m = Map.empty"
  shows "Push m p = (p, False)
         \<and> BufferLen (fst (Push m p)) = BufferLen p
         \<and> buffer (fst (Push m p)) = buffer p
         \<and> backends (fst (Push m p)) = backends p
         \<and> \<not> snd (Push m p)"
proof -
  from assms obtain err where "Validate m = Some err"
    using Validate_invalid by blast
  then have "Push m p = (p, False)" by (simp add: Push_def)
  then show ?thesis by simp
qed

theorem Push_drops_invalid_metric_witness:
  "Fields (NewMetric ''cpu'' 0) = Map.empty
   \<and> Push (NewMetric ''cpu'' 0) (AddBackend (mockBackend ''test'' True None None None) defaultPipeline)
       = (AddBackend (mockBackend ''test'' True None None None) defaultPipeline, False)"
proof -
  have h: "Measurement (NewMetric ''cpu'' 0) = [] \<or> Fields (NewMetric ''cpu'' 0) = Map.empty"
    by (simp add: NewMetric_def)
  show ?thesis
    using Push_drops_invalid_metric[OF h] by (simp add: NewMetric_def)
qed

text \<open>
  C5. In a flush, a backend that reports unhealthy receives no call at all: its state
  after the flush is its state before, its position does not occur among the
  \<open>Write\<close> calls, and the error that the flush returns is the one that the same
  flush returns with that backend removed from the list. This holds for every
  buffer and every context.
\<close>

theorem Flush_skips_unhealthy:
  assumes "i < length (backends p)" and "\<not> Healthy (backends p ! i)"
  shows "case Flush p ctx of
           (e, p', ctx', tr) \<Rightarrow>
             backends p' ! i = backends p ! i
             \<and> i \<notin> set tr
             \<and> e = fst (Flush (p\<lparr>backends := take i (backends p) @ drop (Suc i) (backends p)\<rparr>) ctx)"
proof (cases "buffer p = []")
  case True
  then show ?thesis by (simp add: Flush_def)
next
  case False
  let ?xs = "take i (backends p)" and ?b = "backends p ! i" and ?ys = "drop (Suc i) (backends p)"
  have split: "backends p = ?xs @ ?b # ?ys"
    using assms(1) by (simp add: id_take_nth_drop)
  have len: "length ?xs = i" using assms(1) by simp
  obtain e bs' ctx' tr where
    r: "flush_loop (p\<lparr>buffer := []\<rparr>) ctx (buffer p) 0 (?xs @ ?b # ?ys) None = (e, bs', ctx', tr)"
    by (cases "flush_loop (p\<lparr>buffer := []\<rparr>) ctx (buffer p) 0 (?xs @ ?b # ?ys) None") auto
  from flush_loop_unhealthy[OF assms(2) r] len
  have "bs' ! i = ?b" "i \<notin> set tr"
    "fst (flush_loop (p\<lparr>buffer := []\<rparr>) ctx (buffer p) 0 (?xs @ ?ys) None) = e"
    by auto
  moreover have "flush_loop (p\<lparr>buffer := []\<rparr>) ctx (buffer p) 0 (backends p) None = (e, bs', ctx', tr)"
    using r split by simp
  moreover have "flush_loop (p\<lparr>backends := ?xs @ ?ys, buffer := []\<rparr>) ctx (buffer p) 0 (?xs @ ?ys) None
       = flush_loop (p\<lparr>buffer := []\<rparr>) ctx (buffer p) 0 (?xs @ ?ys) None"
    by (rule flush_loop_cong) simp
  ultimately show ?thesis using False
    by (cases "flush_loop (p\<lparr>buffer := []\<rparr>) ctx (buffer p) 0 (?xs @ ?ys) None")
       (simp add: Flush_def Let_def)
qed


lemmas eval_defs =
  pipelineWith_def AddBackend_def defaultPipeline_def Push_def Validate_def
  cpuMetric_def WithField_def WithTag_def NewMetric_def mockBackend_def retryBackend_def failsBelow_def
  Healthy_def Write_def Flush_def writeWithRetry_def writeWithRetry_loop.simps writes_between_def
  Second_def Let_def

theorem Flush_skips_unhealthy_witness:
  "0 < length (backends (pipelineWith [mockBackend ''down'' False None None None, mockBackend ''ok'' True None None None] [cpuMetric]))
   \<and> \<not> Healthy (backends (pipelineWith [mockBackend ''down'' False None None None, mockBackend ''ok'' True None None None] [cpuMetric]) ! 0)
   \<and> snd (snd (snd (Flush (pipelineWith [mockBackend ''down'' False None None None, mockBackend ''ok'' True None None None] [cpuMetric]) Background))) = [1]"
  using Flush_skips_unhealthy[of 0 "pipelineWith [mockBackend ''down'' False None None None, mockBackend ''ok'' True None None None] [cpuMetric]" Background]
  by (simp add: eval_defs)


section \<open>A backend that always fails\<close>

lemma last_error_Some:
  "le \<noteq> None \<or> (\<exists>r\<in>set rs. r \<noteq> None) \<Longrightarrow> last_error rs le \<noteq> None"
  by (induction rs le rule: last_error.induct) auto

lemma flush_loop_Background:
  "flush_loop p Background batch i bs le = (e, bs', ctx', tr)
   \<Longrightarrow> ctx' = Background
       \<and> bs' = map (\<lambda>b. if Healthy b then fst (snd (writeWithRetry p Background b batch)) else b) bs
       \<and> e = last_error (map (\<lambda>b. if Healthy b then fst (writeWithRetry p Background b batch) else None) bs) le"
proof (induction bs arbitrary: i le e bs' ctx' tr)
  case Nil
  then show ?case by simp
next
  case (Cons b bs)
  show ?case
  proof (cases "Healthy b")
    case False
    obtain e1 bs1 ctx1 tr1 where r: "flush_loop p Background batch (Suc i) bs le = (e1, bs1, ctx1, tr1)"
      by (cases "flush_loop p Background batch (Suc i) bs le") auto
    from Cons.IH[OF r] Cons.prems False r show ?thesis by auto
  next
    case True
    obtain err b1 c1 where w: "writeWithRetry p Background b batch = (err, b1, c1)"
      by (cases "writeWithRetry p Background b batch") auto
    have c1: "c1 = Background" by (rule wwr_Background[OF w])
    obtain e1 bs1 ctx1 tr1 where
      r: "flush_loop p Background batch (Suc i) bs (case err of None \<Rightarrow> le | Some e \<Rightarrow> Some e) = (e1, bs1, ctx1, tr1)"
      by (cases "flush_loop p Background batch (Suc i) bs (case err of None \<Rightarrow> le | Some e \<Rightarrow> Some e)") auto
    from Cons.IH[OF r] Cons.prems True r w c1 show ?thesis
      by (cases err) auto
  qed
qed

lemma count_list_replicate: "count_list (replicate n x) y = (if x = y then n else 0)"
  by (induction n) auto

lemma flush_loop_count:
  "flush_loop p ctx batch i bs le = (e, bs', ctx', tr) \<Longrightarrow> j < length bs
   \<Longrightarrow> count_list tr (i + j) = (if Healthy (bs ! j) then writes_between (bs ! j) (bs' ! j) else 0)"
proof (induction bs arbitrary: i j ctx le e bs' ctx' tr)
  case Nil
  then show ?case by simp
next
  case (Cons b bs)
  obtain c0 l0 where "\<exists>e1 bs1 ctx1 tr1. flush_loop p c0 batch (Suc i) bs l0 = (e1, bs1, ctx1, tr1)
      \<and> bs' = (if Healthy b then fst (snd (writeWithRetry p ctx b batch)) else b) # bs1
      \<and> tr = (if Healthy b then replicate (writes_between b (fst (snd (writeWithRetry p ctx b batch)))) i else []) @ tr1"
    using Cons.prems(1)
    by (cases "Healthy b") (fastforce split: prod.splits)+
  then obtain e1 bs1 ctx1 tr1 where r: "flush_loop p c0 batch (Suc i) bs l0 = (e1, bs1, ctx1, tr1)"
    and bs': "bs' = (if Healthy b then fst (snd (writeWithRetry p ctx b batch)) else b) # bs1"
    and tr: "tr = (if Healthy b then replicate (writes_between b (fst (snd (writeWithRetry p ctx b batch)))) i else []) @ tr1"
    by blast
  show ?case
  proof (cases j)
    case 0
    from flush_loop_trace[OF r] have "i \<notin> set tr1" by fastforce
    then have "count_list tr1 i = 0" by (simp add: count_list_0_iff)
    with 0 bs' tr show ?thesis by (simp add: count_list_replicate)
  next
    case (Suc k)
    with Cons.prems(2) have k: "k < length bs" by simp
    from Cons.IH[OF r k] Suc bs' tr show ?thesis by (simp add: count_list_replicate)
  qed
qed

text \<open>
  C2, amended. Let the context not be cancelled while the flush runs, let the buffer
  be non-empty and let a backend report healthy and fail every \<open>Write\<close>; the number
  of attempts is positive, as \<open>NewPipeline\<close> makes it. Then the
  flush calls \<open>Write\<close> on that backend exactly \<open>retryAttempts\<close> times, each time
  with the whole batch, and returns a non-nil error, namely the last non-nil result
  among the backends in registration order. Every registered backend that reports
  healthy receives at least one \<open>Write\<close> call, and the calls follow the
  registration order.
\<close>

theorem Flush_failing_backend:
  assumes i: "i < length (backends p)"
    and healthy: "Healthy (backends p ! i)"
    and fails: "\<forall>h m. WriteR (backends p ! i) h m \<noteq> None"
    and buf: "buffer p \<noteq> []"
    and pos: "0 < retryAttempts p"
  shows "case Flush p Background of
           (e, p', ctx', tr) \<Rightarrow>
             e \<noteq> None
             \<and> e = last_error (map (\<lambda>b. if Healthy b
                                          then fst (writeWithRetry p Background b (buffer p))
                                          else None) (backends p)) None
             \<and> history (backends p' ! i)
                 = history (backends p ! i) @ replicate (nat (retryAttempts p)) (CallWrite (buffer p))
             \<and> count_list tr i = nat (retryAttempts p)
             \<and> (\<forall>j<length (backends p). Healthy (backends p ! j) \<longrightarrow> j \<in> set tr)
             \<and> sorted tr"
proof -
  let ?q = "p\<lparr>buffer := []\<rparr>" and ?bs = "backends p" and ?batch = "buffer p"
  obtain e bs' ctx' tr where r: "flush_loop ?q Background ?batch 0 ?bs None = (e, bs', ctx', tr)"
    by (cases "flush_loop ?q Background ?batch 0 ?bs None") auto
  have F: "Flush p Background = (e, ?q\<lparr>backends := bs'\<rparr>, ctx', tr)"
    using r buf by (simp add: Flush_def Let_def)
  have r2: "flush_loop p Background ?batch 0 ?bs None = (e, bs', ctx', tr)"
    using r flush_loop_cong[of ?q p] by simp
  from flush_loop_Background[OF r2]
  have bs': "bs' = map (\<lambda>b. if Healthy b then fst (snd (writeWithRetry p Background b ?batch)) else b) ?bs"
    and e: "e = last_error (map (\<lambda>b. if Healthy b then fst (writeWithRetry p Background b ?batch) else None) ?bs) None"
    by simp_all
  have attempts: "(1::int) \<le> retryAttempts p" using pos by simp
  have w: "writeWithRetry p Background (?bs ! i) ?batch
       = (WriteR (?bs ! i) (history (?bs ! i) @ replicate (nat (retryAttempts p) - 1) (CallWrite ?batch)) ?batch,
          (?bs ! i)\<lparr>history := history (?bs ! i) @ replicate (nat (retryAttempts p)) (CallWrite ?batch)\<rparr>,
          Background)"
    unfolding writeWithRetry_def
    using wwr_loop_always_fails[OF fails attempts, of "nat (retryAttempts p)" Background ?batch None]
    by simp
  have bi: "bs' ! i = (?bs ! i)\<lparr>history := history (?bs ! i) @ replicate (nat (retryAttempts p)) (CallWrite ?batch)\<rparr>"
    using bs' i healthy w by simp
  define f where "f = (\<lambda>b. if Healthy b then fst (writeWithRetry p Background b ?batch) else None)"
  have "f (?bs ! i) \<noteq> None"
    using w fails healthy by (simp add: f_def)
  moreover have "f (?bs ! i) \<in> set (map f ?bs)"
    using i by simp
  ultimately have "\<exists>r\<in>set (map f ?bs). r \<noteq> None" by blast
  then have "last_error (map f ?bs) None \<noteq> None"
    by (intro last_error_Some) simp
  then have e_Some: "e \<noteq> None" unfolding e f_def .
  have cnt: "count_list tr i = nat (retryAttempts p)"
    using flush_loop_count[OF r i] healthy bi by (simp add: writes_between_def)
  have others: "\<forall>j<length ?bs. Healthy (?bs ! j) \<longrightarrow> j \<in> set tr"
  proof (intro allI impI)
    fix j assume j: "j < length ?bs" and h: "Healthy (?bs ! j)"
    obtain e1 b1 c1 where wj: "writeWithRetry p Background (?bs ! j) ?batch = (e1, b1, c1)"
      by (cases "writeWithRetry p Background (?bs ! j) ?batch") auto
    have "bs' ! j = b1" using bs' j h wj by simp
    moreover have "1 \<le> writes_between (?bs ! j) b1" using wwr_shape(2)[OF wj pos] .
    ultimately have "0 < count_list tr j" using flush_loop_count[OF r j] h by simp
    then show "j \<in> set tr" using count_list_0_iff[of tr j] by auto
  qed
  from flush_loop_trace[OF r] have "sorted tr" by simp
  with e_Some e bi cnt others show ?thesis by (simp add: F)
qed


theorem Flush_failing_backend_witness:
  "0 < length (backends (pipelineWith [mockBackend ''bad'' True None (Some (Errorf ''write failed'')) None,
                                        mockBackend ''ok'' True None None None] [cpuMetric]))
   \<and> fst (Flush (pipelineWith [mockBackend ''bad'' True None (Some (Errorf ''write failed'')) None,
                                mockBackend ''ok'' True None None None] [cpuMetric]) Background)
       = Some (Errorf ''write failed'')
   \<and> snd (snd (snd (Flush (pipelineWith [mockBackend ''bad'' True None (Some (Errorf ''write failed'')) None,
                                mockBackend ''ok'' True None None None] [cpuMetric]) Background)))
       = [0, 0, 0, 1]"
  using Flush_failing_backend[of 0 "pipelineWith [mockBackend ''bad'' True None (Some (Errorf ''write failed'')) None,
                                mockBackend ''ok'' True None None None] [cpuMetric]"]
  by (simp add: eval_defs)

text \<open>
  C2 as stated fails. With three attempts configured, a context that is already
  cancelled, a healthy backend that always fails and an unhealthy backend registered
  after it, the flush calls \<open>Write\<close> on the failing backend once, not three times,
  and the other backend receives no call.
\<close>

theorem Flush_failing_backend_counterexample:
  "NewPipeline DefaultPipelineConfig = Returned defaultPipeline
   \<and> retryAttempts (pipelineWith [mockBackend ''bad'' True None (Some (Errorf ''write failed'')) None,
                                mockBackend ''down'' False None None None] [cpuMetric]) = 3
   \<and> Healthy (backends (pipelineWith [mockBackend ''bad'' True None (Some (Errorf ''write failed'')) None,
                                mockBackend ''down'' False None None None] [cpuMetric]) ! 0)
   \<and> buffer (pipelineWith [mockBackend ''bad'' True None (Some (Errorf ''write failed'')) None,
                                mockBackend ''down'' False None None None] [cpuMetric]) = [cpuMetric]
   \<and> fst (Flush (pipelineWith [mockBackend ''bad'' True None (Some (Errorf ''write failed'')) None,
                                mockBackend ''down'' False None None None] [cpuMetric]) (CancelAfter 0))
       = Some ContextErr
   \<and> snd (snd (snd (Flush (pipelineWith [mockBackend ''bad'' True None (Some (Errorf ''write failed'')) None,
                                mockBackend ''down'' False None None None] [cpuMetric]) (CancelAfter 0))))
       = [0]"
  by (simp add: eval_defs NewPipeline_default)

section \<open>A backend that recovers\<close>

text \<open>
  C3, amended. Let a backend fail its next \<open>k - 1\<close> writes of the batch and accept
  the one after, with \<open>1 \<le> k \<le> retryAttempts\<close>, and let the context not be
  cancelled before the \<open>k - 1\<close> waits between these attempts are over. Then
  \<open>writeWithRetry\<close> returns no error after exactly \<open>k\<close> calls of \<open>Write\<close>, and so
  does a flush of that batch over this backend alone when it reports healthy.
\<close>

theorem writeWithRetry_succeeds_on_attempt:
  assumes k: "1 \<le> k" "int k \<le> retryAttempts p"
    and fails: "\<forall>j<k - 1. WriteR b (history b @ replicate j (CallWrite batch)) batch \<noteq> None"
    and succeeds: "WriteR b (history b @ replicate (k - 1) (CallWrite batch)) batch = None"
    and waits: "completes ctx (k - 1)"
  shows "writeWithRetry p ctx b batch
           = (None, b\<lparr>history := history b @ replicate k (CallWrite batch)\<rparr>, elapse (k - 1) ctx)
         \<and> (Healthy b \<and> backends p = [b] \<and> buffer p = batch \<and> batch \<noteq> []
              \<longrightarrow> Flush p ctx
                    = (None,
                       p\<lparr>buffer := [],
                         backends := [b\<lparr>history := history b @ replicate k (CallWrite batch)\<rparr>]\<rparr>,
                       elapse (k - 1) ctx,
                       replicate k 0))"
proof -
  have att: "1 + int (k - 1) \<le> retryAttempts p" using k by simp
  have w: "writeWithRetry p ctx b batch
           = (None, b\<lparr>history := history b @ replicate k (CallWrite batch)\<rparr>, elapse (k - 1) ctx)"
    unfolding writeWithRetry_def
    using wwr_loop_succeeds_after[OF fails succeeds att waits, of None] k by simp
  have wq: "writeWithRetry (p\<lparr>buffer := []\<rparr>) ctx b batch = writeWithRetry p ctx b batch"
    by (simp add: writeWithRetry_def wwr_loop_cong[of "p\<lparr>buffer := []\<rparr>" p])
  show ?thesis
    using w wq by (auto simp: Flush_def Let_def writes_between_def)
qed

theorem writeWithRetry_succeeds_on_attempt_witness:
  "completes Background 2
   \<and> writeWithRetry (pipelineWith [retryBackend ''test'' True (failsBelow 3)] [cpuMetric]) Background
        (retryBackend ''test'' True (failsBelow 3)) [cpuMetric]
       = (None,
          (retryBackend ''test'' True (failsBelow 3))
            \<lparr>history := [CallWrite [cpuMetric], CallWrite [cpuMetric], CallWrite [cpuMetric]]\<rparr>,
          Background)
   \<and> fst (Flush (pipelineWith [retryBackend ''test'' True (failsBelow 3)] [cpuMetric]) Background) = None
   \<and> snd (snd (snd (Flush (pipelineWith [retryBackend ''test'' True (failsBelow 3)] [cpuMetric]) Background)))
       = [0, 0, 0]"
  using writeWithRetry_succeeds_on_attempt[of 3 "pipelineWith [retryBackend ''test'' True (failsBelow 3)] [cpuMetric]"
          "retryBackend ''test'' True (failsBelow 3)" "[cpuMetric]" Background]
  by (simp add: eval_defs numeral_3_eq_3 less_Suc_eq)

text \<open>
  C3 as stated fails. A backend that fails its first write and accepts the second,
  under three configured attempts and a context that is already cancelled:
  \<open>writeWithRetry\<close> returns the error of the context after a single \<open>Write\<close>.
\<close>

theorem writeWithRetry_succeeds_on_attempt_counterexample:
  "NewPipeline DefaultPipelineConfig = Returned defaultPipeline
   \<and> WriteR (retryBackend ''test'' True (failsBelow 2)) (history (retryBackend ''test'' True (failsBelow 2))) [cpuMetric] \<noteq> None
   \<and> WriteR (retryBackend ''test'' True (failsBelow 2))
        (history (retryBackend ''test'' True (failsBelow 2)) @ [CallWrite [cpuMetric]]) [cpuMetric] = None
   \<and> 2 \<le> retryAttempts defaultPipeline
   \<and> fst (writeWithRetry defaultPipeline (CancelAfter 0)
            (retryBackend ''test'' True (failsBelow 2)) [cpuMetric]) = Some ContextErr
   \<and> written (history (fst (snd (writeWithRetry defaultPipeline (CancelAfter 0)
            (retryBackend ''test'' True (failsBelow 2)) [cpuMetric])))) = [[cpuMetric]]"
  by (simp add: eval_defs NewPipeline_default)

section \<open>Poll statistics\<close>

lemma recordPoll_fields:
  "TotalPolls (recordPoll ok n d s) = TotalPolls s + 1"
  "SuccessfulPolls (recordPoll ok n d s) = (if ok then SuccessfulPolls s + 1 else SuccessfulPolls s)"
  "FailedPolls (recordPoll ok n d s) = (if ok then FailedPolls s else FailedPolls s + 1)"
  "TotalMetrics (recordPoll ok n d s) = (if ok then TotalMetrics s + word_of_int n else TotalMetrics s)"
  "LastDuration (recordPoll ok n d s) = d"
  by (simp_all add: recordPoll_def Let_def)

lemma recordPolls_counters:
  "TotalPolls (recordPolls calls s) = TotalPolls s + of_nat (length calls)"
  "SuccessfulPolls (recordPolls calls s) = SuccessfulPolls s + of_nat (length (filter fst calls))"
  "FailedPolls (recordPolls calls s) = FailedPolls s + of_nat (length (filter (\<lambda>c. \<not> fst c) calls))"
  "TotalMetrics (recordPolls calls s)
     = TotalMetrics s + word_of_int (\<Sum>(ok, n, d)\<leftarrow>calls. if ok then n else 0)"
  by (induction calls s rule: recordPolls.induct; simp add: recordPoll_fields)+

lemma recordPolls_sum:
  "SuccessfulPolls s + FailedPolls s = TotalPolls s
   \<Longrightarrow> SuccessfulPolls (recordPolls calls s) + FailedPolls (recordPolls calls s)
       = TotalPolls (recordPolls calls s)"
  by (induction calls s rule: recordPolls.induct) (auto simp: recordPoll_fields)

lemma sint_int64:
  "- (2 ^ 63) \<le> x \<Longrightarrow> x < 2 ^ 63 \<Longrightarrow> sint (word_of_int x :: 64 word) = x"
  by (simp add: sint_sbintrunc' signed_take_bit_int_eq_self)

lemma sint_nat64:
  "int n < 2 ^ 63 \<Longrightarrow> sint (of_nat n :: 64 word) = int n"
  using sint_int64[of "int n"] by simp

lemma delivered_nonneg:
  "\<forall>(ok, n, d)\<in>set zs. (0::int) \<le> n \<Longrightarrow> 0 \<le> (\<Sum>(ok, n, d)\<leftarrow>zs. if ok then n else 0)"
  by (induction zs) auto

lemma stats_values:
  assumes "int (length zs) < 2 ^ 63"
    and "0 \<le> (\<Sum>(ok, n, d)\<leftarrow>zs. if ok then n else 0)"
    and "(\<Sum>(ok, n, d)\<leftarrow>zs. if ok then n else 0) < 2 ^ 63"
  shows "sint (TotalPolls (recordPolls zs zeroStats)) = int (length zs)"
    and "sint (SuccessfulPolls (recordPolls zs zeroStats)) = int (length (filter fst zs))"
    and "sint (FailedPolls (recordPolls zs zeroStats)) = int (length (filter (\<lambda>c. \<not> fst c) zs))"
    and "sint (TotalMetrics (recordPolls zs zeroStats)) = (\<Sum>(ok, n, d)\<leftarrow>zs. if ok then n else 0)"
proof -
  have z: "TotalPolls zeroStats = 0" "SuccessfulPolls zeroStats = 0" "FailedPolls zeroStats = 0"
    "TotalMetrics zeroStats = 0"
    by (simp_all add: zeroStats_def)
  have f: "\<And>P. int (length (filter P zs)) < 2 ^ 63"
  proof -
    fix P
    have "int (length (filter P zs)) \<le> int (length zs)" by simp
    with assms(1) show "int (length (filter P zs)) < 2 ^ 63" by linarith
  qed
  show "sint (TotalPolls (recordPolls zs zeroStats)) = int (length zs)"
    using assms(1) by (simp only: recordPolls_counters z add_0 sint_nat64)
  show "sint (SuccessfulPolls (recordPolls zs zeroStats)) = int (length (filter fst zs))"
    using f[of fst] by (simp only: recordPolls_counters z add_0 sint_nat64)
  show "sint (FailedPolls (recordPolls zs zeroStats)) = int (length (filter (\<lambda>c. \<not> fst c) zs))"
    using f[of "\<lambda>c. \<not> fst c"] by (simp only: recordPolls_counters z add_0 sint_nat64)
  show "sint (TotalMetrics (recordPolls zs zeroStats)) = (\<Sum>(ok, n, d)\<leftarrow>zs. if ok then n else 0)"
  proof -
    have "- (2 ^ 63) \<le> (\<Sum>(ok, n, d)\<leftarrow>zs. if ok then n else 0)"
      using assms(2) by (rule order_trans[rotated]) simp
    from sint_int64[OF this assms(3)] show ?thesis
      by (simp only: recordPolls_counters z add_0)
  qed
qed

text \<open>
  C8, amended. Take any sequence of \<open>recordPoll\<close> calls from the zero state in which
  every metric count is non-negative, fewer than \<open>2 ^ 63\<close> calls are made and fewer
  than \<open>2 ^ 63\<close> metrics are counted, and observe the counters after a first part
  \<open>xs\<close> of the calls and again after the further calls \<open>ys\<close>. At the observation
  \<open>SuccessfulPolls + FailedPolls = TotalPolls\<close> holds, as words and as signed
  numbers, and none of the four counters is smaller at the later observation than at
  the earlier one. Whatever the state and the arguments, one call of \<open>recordPoll\<close>
  adds one to \<open>TotalPolls\<close> and one to exactly one of \<open>SuccessfulPolls\<close> and
  \<open>FailedPolls\<close>, leaving the other as it was.
\<close>

theorem recordPolls_invariant:
  assumes nonneg: "\<forall>(ok, n, d)\<in>set (xs @ ys). 0 \<le> n"
    and polls: "int (length (xs @ ys)) < 2 ^ 63"
    and total: "(\<Sum>(ok, n, d)\<leftarrow>xs @ ys. if ok then n else 0) < 2 ^ 63"
  shows "SuccessfulPolls (recordPolls (xs @ ys) zeroStats) + FailedPolls (recordPolls (xs @ ys) zeroStats)
           = TotalPolls (recordPolls (xs @ ys) zeroStats)
         \<and> sint (SuccessfulPolls (recordPolls (xs @ ys) zeroStats))
             + sint (FailedPolls (recordPolls (xs @ ys) zeroStats))
           = sint (TotalPolls (recordPolls (xs @ ys) zeroStats))
         \<and> sint (TotalPolls (recordPolls xs zeroStats)) \<le> sint (TotalPolls (recordPolls (xs @ ys) zeroStats))
         \<and> sint (SuccessfulPolls (recordPolls xs zeroStats))
             \<le> sint (SuccessfulPolls (recordPolls (xs @ ys) zeroStats))
         \<and> sint (FailedPolls (recordPolls xs zeroStats)) \<le> sint (FailedPolls (recordPolls (xs @ ys) zeroStats))
         \<and> sint (TotalMetrics (recordPolls xs zeroStats)) \<le> sint (TotalMetrics (recordPolls (xs @ ys) zeroStats))
         \<and> TotalPolls (recordPoll ok n d s) = TotalPolls s + 1
         \<and> (if ok
             then SuccessfulPolls (recordPoll ok n d s) = SuccessfulPolls s + 1
                  \<and> FailedPolls (recordPoll ok n d s) = FailedPolls s
             else SuccessfulPolls (recordPoll ok n d s) = SuccessfulPolls s
                  \<and> FailedPolls (recordPoll ok n d s) = FailedPolls s + 1)"
proof -
  let ?sum = "\<lambda>zs :: (bool \<times> int \<times> duration) list. \<Sum>(ok, n, d)\<leftarrow>zs. if ok then n else 0"
  have bx: "\<forall>(ok, n, d)\<in>set xs. 0 \<le> n" and byy: "\<forall>(ok, n, d)\<in>set ys. 0 \<le> n"
    using nonneg by simp_all
  have nx: "0 \<le> ?sum xs" by (rule delivered_nonneg[OF bx])
  have ny: "0 \<le> ?sum ys" by (rule delivered_nonneg[OF byy])
  have sxy: "?sum (xs @ ys) = ?sum xs + ?sum ys" by simp
  have nxy: "0 \<le> ?sum (xs @ ys)" using nx ny sxy by linarith
  have lx: "int (length xs) < 2 ^ 63" using polls by simp
  have tx: "?sum xs < 2 ^ 63" using total ny sxy by linarith
  note vx = stats_values[OF lx nx tx]
  note vxy = stats_values[OF polls nxy total]
  have word_sum: "SuccessfulPolls (recordPolls (xs @ ys) zeroStats) + FailedPolls (recordPolls (xs @ ys) zeroStats)
           = TotalPolls (recordPolls (xs @ ys) zeroStats)"
    by (rule recordPolls_sum) (simp add: zeroStats_def)
  have int_sum: "int (length (filter fst (xs @ ys))) + int (length (filter (\<lambda>c. \<not> fst c) (xs @ ys)))
      = int (length (xs @ ys))"
    using sum_length_filter_compl[of fst "xs @ ys"] by (simp only: flip: of_nat_add)
  have m1: "int (length xs) \<le> int (length (xs @ ys))" by simp
  have m2: "\<And>P. int (length (filter P xs)) \<le> int (length (filter P (xs @ ys)))" by simp
  have m3: "?sum xs \<le> ?sum (xs @ ys)" using ny sxy by linarith
  have c2: "sint (SuccessfulPolls (recordPolls (xs @ ys) zeroStats))
             + sint (FailedPolls (recordPolls (xs @ ys) zeroStats))
           = sint (TotalPolls (recordPolls (xs @ ys) zeroStats))"
    unfolding vxy by (rule int_sum)
  have c3: "sint (TotalPolls (recordPolls xs zeroStats)) \<le> sint (TotalPolls (recordPolls (xs @ ys) zeroStats))"
    unfolding vx vxy by (rule m1)
  have c4: "sint (SuccessfulPolls (recordPolls xs zeroStats))
             \<le> sint (SuccessfulPolls (recordPolls (xs @ ys) zeroStats))"
    unfolding vx vxy by (rule m2)
  have c5: "sint (FailedPolls (recordPolls xs zeroStats)) \<le> sint (FailedPolls (recordPolls (xs @ ys) zeroStats))"
    unfolding vx vxy by (rule m2)
  have c6: "sint (TotalMetrics (recordPolls xs zeroStats)) \<le> sint (TotalMetrics (recordPolls (xs @ ys) zeroStats))"
    unfolding vx vxy by (rule m3)
  have c7: "TotalPolls (recordPoll ok n d s) = TotalPolls s + 1"
    by (simp add: recordPoll_fields)
  have c8: "if ok
             then SuccessfulPolls (recordPoll ok n d s) = SuccessfulPolls s + 1
                  \<and> FailedPolls (recordPoll ok n d s) = FailedPolls s
             else SuccessfulPolls (recordPoll ok n d s) = SuccessfulPolls s
                  \<and> FailedPolls (recordPoll ok n d s) = FailedPolls s + 1"
    by (simp add: recordPoll_fields)
  from word_sum c2 c3 c4 c5 c6 c7 c8 show ?thesis by (intro conjI)
qed

theorem recordPolls_invariant_witness:
  "sint (TotalMetrics (recordPolls [(True, 5, 100 * Millisecond)] zeroStats))
     \<le> sint (TotalMetrics (recordPolls ([(True, 5, 100 * Millisecond)] @ [(False, 0, 50 * Millisecond)]) zeroStats))
   \<and> TotalPolls (recordPolls ([(True, 5, 100 * Millisecond)] @ [(False, 0, 50 * Millisecond)]) zeroStats) = 2
   \<and> SuccessfulPolls (recordPolls ([(True, 5, 100 * Millisecond)] @ [(False, 0, 50 * Millisecond)]) zeroStats) = 1
   \<and> FailedPolls (recordPolls ([(True, 5, 100 * Millisecond)] @ [(False, 0, 50 * Millisecond)]) zeroStats) = 1
   \<and> TotalMetrics (recordPolls ([(True, 5, 100 * Millisecond)] @ [(False, 0, 50 * Millisecond)]) zeroStats) = 5"
  using recordPolls_invariant[of "[(True, 5, 100 * Millisecond)]" "[(False, 0, 50 * Millisecond)]" True 5 0 zeroStats]
  by (simp add: recordPoll_def zeroStats_def Let_def)

text \<open>
  C8 as stated fails. \<open>recordPoll\<close> adds \<open>metricCount\<close> as it is given: a successful
  poll recorded with the count \<open>-1\<close> takes \<open>TotalMetrics\<close> from 0 to \<open>-1\<close>, and a
  count of 1 recorded on top of \<open>2 ^ 63 - 1\<close> wraps \<open>TotalMetrics\<close> around to a
  negative number.
\<close>

theorem recordPolls_invariant_counterexample:
  "sint (TotalMetrics (recordPolls [(True, - 1, 0)] zeroStats)) < sint (TotalMetrics zeroStats)
   \<and> sint (TotalMetrics (recordPolls [(True, 2 ^ 63 - 1, 0), (True, 1, 0)] zeroStats))
       < sint (TotalMetrics (recordPolls [(True, 2 ^ 63 - 1, 0)] zeroStats))"
  by (simp add: recordPoll_def zeroStats_def Let_def)


section \<open>Validation of the configuration\<close>

lemma validateGlobal_independent:
  "validateGlobal env (c\<lparr>Global := (Global c)\<lparr>GlobalRetryAttempts := ra, GlobalRetryDelay := rd\<rparr>\<rparr>)
     = validateGlobal env c"
  by (simp add: validateGlobal_def)

lemma validateGlobal_poll_interval:
  "PollInterval (Global c) \<le> 0
   \<Longrightarrow> \<lparr>Field = ''global.poll_interval'', Message = ''must be positive''\<rparr> \<in> set (validateGlobal env c)"
  by (simp add: validateGlobal_def Let_def)

lemma validateGlobal_batch_size:
  "GlobalBatchSize (Global c) \<le> 0
   \<Longrightarrow> \<lparr>Field = ''global.batch_size'', Message = ''must be positive''\<rparr> \<in> set (validateGlobal env c)"
  by (simp add: validateGlobal_def Let_def)

lemma Config_Validate_reports:
  "e \<in> set (validateGlobal env c)
   \<Longrightarrow> \<exists>errs. Config_Validate env c = Some (ValidationErrors errs) \<and> e \<in> set errs"
  by (auto simp: Config_Validate_def Let_def)

text \<open>
  C1, amended. For every configuration whose poll interval is zero or negative,
  \<open>Config.Validate\<close> returns validation errors among which one names
  \<open>global.poll_interval\<close>, and likewise \<open>global.batch_size\<close> for the batch size.
  Retry attempts and retry delay are not validated: the result of \<open>Config.Validate\<close>
  does not depend on them. The pipeline constructor rejects no value for being zero
  or negative: whenever the batch size is one that the buffer can be made with, which
  every batch size that is not positive is, it returns a pipeline that keeps each
  positive value and has the default in the place of any other.
\<close>

theorem Config_Validate_checks:
  "(PollInterval (Global c) \<le> 0
      \<longrightarrow> (\<exists>errs. Config_Validate env c = Some (ValidationErrors errs)
                  \<and> \<lparr>Field = ''global.poll_interval'', Message = ''must be positive''\<rparr> \<in> set errs))
   \<and> (GlobalBatchSize (Global c) \<le> 0
      \<longrightarrow> (\<exists>errs. Config_Validate env c = Some (ValidationErrors errs)
                  \<and> \<lparr>Field = ''global.batch_size'', Message = ''must be positive''\<rparr> \<in> set errs))
   \<and> Config_Validate env (c\<lparr>Global := (Global c)\<lparr>GlobalRetryAttempts := ra, GlobalRetryDelay := rd\<rparr>\<rparr>)
       = Config_Validate env c
   \<and> (BatchSize pc \<le> maxSliceCap
        \<longrightarrow> (\<exists>p. NewPipeline pc = Returned p
              \<and> batchSize p = (if BatchSize pc \<le> 0 then 10 else BatchSize pc)
              \<and> flushInterval p = (if FlushInterval pc \<le> 0 then 10 * Second else FlushInterval pc)
              \<and> retryAttempts p = (if RetryAttempts pc \<le> 0 then 3 else RetryAttempts pc)
              \<and> retryDelay p = (if RetryDelay pc \<le> 0 then 1 * Second else RetryDelay pc)))"
proof -
  have "Config_Validate env (c\<lparr>Global := (Global c)\<lparr>GlobalRetryAttempts := ra, GlobalRetryDelay := rd\<rparr>\<rparr>)
       = Config_Validate env c"
    by (simp add: Config_Validate_def validateGlobal_independent validateInfluxDB_def validatePrometheus_def)
  then show ?thesis
    using Config_Validate_reports[OF validateGlobal_poll_interval, of c env]
      Config_Validate_reports[OF validateGlobal_batch_size, of c env]
    by (simp add: NewPipeline_Returned)
qed

theorem Config_Validate_checks_witness:
  "(\<exists>errs. Config_Validate stdEnv (DefaultConfig\<lparr>Global := (Global DefaultConfig)\<lparr>PollInterval := 0, GlobalBatchSize := 0\<rparr>\<rparr>)
              = Some (ValidationErrors errs)
            \<and> \<lparr>Field = ''global.poll_interval'', Message = ''must be positive''\<rparr> \<in> set errs)
   \<and> (\<exists>errs. Config_Validate stdEnv (DefaultConfig\<lparr>Global := (Global DefaultConfig)\<lparr>PollInterval := 0, GlobalBatchSize := 0\<rparr>\<rparr>)
              = Some (ValidationErrors errs)
            \<and> \<lparr>Field = ''global.batch_size'', Message = ''must be positive''\<rparr> \<in> set errs)
   \<and> (\<exists>p. NewPipeline \<lparr>BatchSize = 0, FlushInterval = 0, RetryAttempts = 0, RetryDelay = - 1, Logger = None\<rparr>
              = Returned p
            \<and> batchSize p = 10 \<and> flushInterval p = 10 * Second \<and> retryAttempts p = 3
            \<and> retryDelay p = 1 * Second)"
  using Config_Validate_checks[of "DefaultConfig\<lparr>Global := (Global DefaultConfig)\<lparr>PollInterval := 0, GlobalBatchSize := 0\<rparr>\<rparr>" stdEnv
          _ _ "\<lparr>BatchSize = 0, FlushInterval = 0, RetryAttempts = 0, RetryDelay = - 1, Logger = None\<rparr>"]
  by (auto simp: DefaultConfig_def maxSliceCap_def)

text \<open>
  C1 as stated fails. The default configuration with zero retry attempts and a
  negative retry delay passes \<open>Config.Validate\<close> without error.
\<close>

theorem Config_Validate_checks_counterexample:
  "GlobalRetryAttempts (Global (DefaultConfig\<lparr>Global := (Global DefaultConfig)\<lparr>GlobalRetryAttempts := 0, GlobalRetryDelay := - 1\<rparr>\<rparr>)) \<le> 0
   \<and> GlobalRetryDelay (Global (DefaultConfig\<lparr>Global := (Global DefaultConfig)\<lparr>GlobalRetryAttempts := 0, GlobalRetryDelay := - 1\<rparr>\<rparr>)) \<le> 0
   \<and> Config_Validate stdEnv (DefaultConfig\<lparr>Global := (Global DefaultConfig)\<lparr>GlobalRetryAttempts := 0, GlobalRetryDelay := - 1\<rparr>\<rparr>) = None"
  by (simp add: DefaultConfig_def Config_Validate_def validateGlobal_def validateInfluxDB_def
        validatePrometheus_def stdEnv_def asciiLower_def Second_def Let_def)


section \<open>Running the monitor\<close>

lemma addBackends_none:
  "registered m = [] \<Longrightarrow> \<not> echoMode m \<Longrightarrow> backends p = []
   \<Longrightarrow> addBackends env m p
       = (Some (Errorf ''no backends configured (use WithBackend, WithEcho, or enable backends in config)''),
          p)"
  by (simp add: addBackends_def BackendCount_def)

text \<open>
  C6, amended. A monitor with no registered backend and echo mode off, whose
  configured batch size is one that the buffer of the pipeline can be made with:
  \<open>Run\<close> returns a non-nil error, whatever events are waiting. At that point the
  collector has not been called, no poll has been recorded, nothing has been pushed,
  and the pipeline holds no backend that could have been initialized. With a larger
  batch size \<open>Run\<close> panics while it builds the pipeline.
\<close>

theorem Run_without_backends:
  assumes "registered m = []" and "\<not> echoMode m"
  shows "(GlobalBatchSize (Global (cfg m)) \<le> maxSliceCap
           \<longrightarrow> (\<exists>err m' p. Run env stopCtx evs m = Returned (Some err, m')
                 \<and> collected m' = collected m
                 \<and> stats m' = stats m
                 \<and> launched m' = launched m
                 \<and> pipeline m' = Some p \<and> backends p = [] \<and> buffer p = []))
         \<and> (maxSliceCap < GlobalBatchSize (Global (cfg m))
           \<longrightarrow> Run env stopCtx evs m = Panicked)"
  using assms
  by (simp add: Run_def Let_def addBackends_none NewPipeline_Returned NewPipeline_Panicked)

theorem Run_without_backends_witness:
  "registered (newMonitor ''test'' noMetrics []) = []
   \<and> \<not> echoMode (newMonitor ''test'' noMetrics [])
   \<and> (\<exists>err m' p. Run stdEnv Background [] (newMonitor ''test'' noMetrics []) = Returned (Some err, m')
           \<and> collected m' = collected (newMonitor ''test'' noMetrics [])
           \<and> stats m' = stats (newMonitor ''test'' noMetrics [])
           \<and> launched m' = launched (newMonitor ''test'' noMetrics [])
           \<and> pipeline m' = Some p \<and> backends p = [] \<and> buffer p = [])
   \<and> Run stdEnv Background []
        ((newMonitor ''test'' noMetrics [])
           \<lparr>cfg := DefaultConfig\<lparr>Global := (Global DefaultConfig)\<lparr>GlobalBatchSize := 2 ^ 62\<rparr>\<rparr>\<rparr>)
       = Panicked"
proof -
  have h: "registered (newMonitor ''test'' noMetrics []) = []"
    "\<not> echoMode (newMonitor ''test'' noMetrics [])"
    by (simp_all add: newMonitor_def)
  have h2: "registered ((newMonitor ''test'' noMetrics [])
           \<lparr>cfg := DefaultConfig\<lparr>Global := (Global DefaultConfig)\<lparr>GlobalBatchSize := 2 ^ 62\<rparr>\<rparr>\<rparr>) = []"
    "\<not> echoMode ((newMonitor ''test'' noMetrics [])
           \<lparr>cfg := DefaultConfig\<lparr>Global := (Global DefaultConfig)\<lparr>GlobalBatchSize := 2 ^ 62\<rparr>\<rparr>\<rparr>)"
    by (simp_all add: newMonitor_def)
  have small: "GlobalBatchSize (Global (cfg (newMonitor ''test'' noMetrics []))) \<le> maxSliceCap"
    by (simp add: newMonitor_def DefaultConfig_def maxSliceCap_def)
  have large: "maxSliceCap < GlobalBatchSize (Global (cfg ((newMonitor ''test'' noMetrics [])
           \<lparr>cfg := DefaultConfig\<lparr>Global := (Global DefaultConfig)\<lparr>GlobalBatchSize := 2 ^ 62\<rparr>\<rparr>\<rparr>)))"
    by (simp add: maxSliceCap_def)
  from h small large Run_without_backends[OF h, of stdEnv Background "[]"]
    Run_without_backends[OF h2, of stdEnv Background "[]"]
  show ?thesis by blast
qed

text \<open>
  C6 as stated fails. The default configuration with a batch size of \<open>2 ^ 62\<close>
  passes \<open>Config.Validate\<close>; a monitor with that configuration, no backend and echo
  mode off does not get as far as the check for backends: \<open>Run\<close> panics in
  \<open>NewPipeline\<close> and returns no error.
\<close>

theorem Run_without_backends_counterexample:
  "Config_Validate stdEnv (DefaultConfig\<lparr>Global := (Global DefaultConfig)\<lparr>GlobalBatchSize := 2 ^ 62\<rparr>\<rparr>) = None
   \<and> registered ((newMonitor ''test'' noMetrics [])
        \<lparr>cfg := DefaultConfig\<lparr>Global := (Global DefaultConfig)\<lparr>GlobalBatchSize := 2 ^ 62\<rparr>\<rparr>\<rparr>) = []
   \<and> \<not> echoMode ((newMonitor ''test'' noMetrics [])
        \<lparr>cfg := DefaultConfig\<lparr>Global := (Global DefaultConfig)\<lparr>GlobalBatchSize := 2 ^ 62\<rparr>\<rparr>\<rparr>)
   \<and> Run stdEnv Background []
        ((newMonitor ''test'' noMetrics [])
           \<lparr>cfg := DefaultConfig\<lparr>Global := (Global DefaultConfig)\<lparr>GlobalBatchSize := 2 ^ 62\<rparr>\<rparr>\<rparr>)
       = Panicked"
  by (simp add: newMonitor_def DefaultConfig_def Config_Validate_def validateGlobal_def
        validateInfluxDB_def validatePrometheus_def stdEnv_def asciiLower_def Second_def Let_def
        Run_def NewPipeline_def cap_in_range_def maxSliceCap_def)

section \<open>Reloading the configuration\<close>

lemma handleReload_no_source:
  "reloadFn m = None \<Longrightarrow> cfgPath m = [] \<Longrightarrow> handleReload env ticker m = Returned (ticker, m)"
  by (simp add: handleReload_def)

lemma handleReload_fn_fails:
  "reloadFn m = Some fn \<Longrightarrow> snd (fn (cfgPath m)) \<noteq> None
   \<Longrightarrow> handleReload env ticker m = Returned (ticker, m)"
  by (cases "fn (cfgPath m)") (auto simp: handleReload_def)

lemma handleReload_load_fails:
  "reloadFn m = None \<Longrightarrow> cfgPath m \<noteq> [] \<Longrightarrow> snd (LoadConfig env (cfgPath m)) \<noteq> None
   \<Longrightarrow> handleReload env ticker m = Returned (ticker, m)"
  by (cases "LoadConfig env (cfgPath m)") (auto simp: handleReload_def)

lemma LoadConfig_fails:
  "(\<exists>e. ReadFile env path = Inl e)
   \<or> (\<exists>data e. ReadFile env path = Inr data \<and> Unmarshal env data DefaultConfig = Inl e)
   \<or> (\<exists>data c e. ReadFile env path = Inr data \<and> Unmarshal env data DefaultConfig = Inr c
          \<and> Config_Validate env c = Some e)
   \<Longrightarrow> snd (LoadConfig env path) \<noteq> None"
  by (auto simp: LoadConfig_def)

lemma LoadConfig_validated:
  "LoadConfig env path = (Some c, err) \<Longrightarrow> 0 < PollInterval (Global c)"
proof -
  assume l: "LoadConfig env path = (Some c, err)"
  then have "Config_Validate env c = None"
    by (auto simp: LoadConfig_def split: sum.splits option.splits)
  then have "validateGlobal env c = []"
    by (simp add: Config_Validate_def Let_def split: if_splits)
  then show ?thesis
    by (cases "PollInterval (Global c) \<le> 0") (auto simp: validateGlobal_def Let_def split: if_splits)
qed

lemma handleReload_path_returns:
  "reloadFn m = None \<Longrightarrow> handleReload env ticker m \<noteq> Panicked"
proof (cases "cfgPath m = []")
  case True
  assume "reloadFn m = None"
  with True show ?thesis by (simp add: handleReload_def)
next
  case False
  assume none: "reloadFn m = None"
  obtain newCfg err where l: "LoadConfig env (cfgPath m) = (newCfg, err)"
    by (cases "LoadConfig env (cfgPath m)")
  show ?thesis
  proof (cases "err = None")
    case False
    with none l \<open>cfgPath m \<noteq> []\<close> show ?thesis by (simp add: handleReload_def)
  next
    case True
    with l have "newCfg \<noteq> None"
      by (auto simp: LoadConfig_def split: sum.splits option.splits)
    then obtain c where c: "newCfg = Some c" by auto
    with l have "0 < PollInterval (Global c)" by (simp add: LoadConfig_validated)
    with none l c True \<open>cfgPath m \<noteq> []\<close> show ?thesis
      by (simp add: handleReload_def Let_def)
  qed
qed

lemma handleReload_fn_returns:
  "reloadFn m = Some fn \<Longrightarrow> fn (cfgPath m) = (Some c, None) \<Longrightarrow> 0 < PollInterval (Global c)
   \<Longrightarrow> handleReload env ticker m \<noteq> Panicked"
  by (simp add: handleReload_def Let_def)

lemma handleReload_never_blocks: "handleReload env ticker m \<noteq> Blocked"
  by (auto simp: handleReload_def Let_def split: option.splits prod.splits)

text \<open>
  C9, amended. A reload request is not fatal when no reload function is configured,
  or when the reload function returns an error or a configuration with a positive
  poll interval: \<open>handleReload\<close> returns. It leaves the monitor and the period of the
  ticker exactly as they were (hence the configuration, the poll interval and the log
  level) in each of these cases: there is neither a reload function nor a
  configuration path; the reload function returns an error; there is no reload
  function and \<open>LoadConfig\<close> on the configuration path returns an error. The latter
  happens whenever the file cannot be read, cannot be parsed, or does not pass
  validation.
\<close>

theorem handleReload_keeps_state:
  "(reloadFn m = None \<and> cfgPath m = [] \<longrightarrow> handleReload env ticker m = Returned (ticker, m))
   \<and> (reloadFn m = Some fn \<and> snd (fn (cfgPath m)) \<noteq> None
        \<longrightarrow> handleReload env ticker m = Returned (ticker, m))
   \<and> (reloadFn m = None \<and> cfgPath m \<noteq> [] \<and> snd (LoadConfig env (cfgPath m)) \<noteq> None
        \<longrightarrow> handleReload env ticker m = Returned (ticker, m))
   \<and> ((\<exists>e. ReadFile env path = Inl e)
        \<or> (\<exists>data e. ReadFile env path = Inr data \<and> Unmarshal env data DefaultConfig = Inl e)
        \<or> (\<exists>data c e. ReadFile env path = Inr data \<and> Unmarshal env data DefaultConfig = Inr c
               \<and> Config_Validate env c = Some e)
        \<longrightarrow> snd (LoadConfig env path) \<noteq> None)
   \<and> (reloadFn m = None \<longrightarrow> handleReload env ticker m \<noteq> Panicked)
   \<and> (reloadFn m = Some fn \<and> fn (cfgPath m) = (Some c, None) \<and> 0 < PollInterval (Global c)
        \<longrightarrow> handleReload env ticker m \<noteq> Panicked)
   \<and> handleReload env ticker m \<noteq> Blocked"
  using handleReload_no_source[of m env ticker] handleReload_fn_fails[of m fn env ticker]
    handleReload_load_fails[of m env ticker] LoadConfig_fails[of env path]
    handleReload_path_returns[of m env ticker] handleReload_fn_returns[of m fn c env ticker]
    handleReload_never_blocks[of env ticker m]
  by blast

theorem handleReload_keeps_state_witness:
  "handleReload stdEnv (10 * Second) (newMonitor ''test'' noMetrics [])
     = Returned (10 * Second, newMonitor ''test'' noMetrics [])
   \<and> handleReload stdEnv (10 * Second)
        ((newMonitor ''test'' noMetrics [])\<lparr>cfgPath := ''/nonexistent/config.toml''\<rparr>)
     = Returned (10 * Second,
                 (newMonitor ''test'' noMetrics [])\<lparr>cfgPath := ''/nonexistent/config.toml''\<rparr>)
   \<and> handleReload stdEnv (10 * Second)
        ((newMonitor ''test'' noMetrics [])
           \<lparr>reloadFn := Some (\<lambda>path. (None, Some (Errorf ''malformed configuration'')))\<rparr>)
     = Returned (10 * Second,
                 (newMonitor ''test'' noMetrics [])
                   \<lparr>reloadFn := Some (\<lambda>path. (None, Some (Errorf ''malformed configuration'')))\<rparr>)
   \<and> handleReload stdEnv (10 * Second) ((newMonitor ''test'' noMetrics [])\<lparr>reloadFn := Some reloadDefault\<rparr>)
     = Returned (10 * Second, (newMonitor ''test'' noMetrics [])\<lparr>reloadFn := Some reloadDefault\<rparr>)"
  using handleReload_keeps_state[where m = "newMonitor ''test'' noMetrics []" and env = stdEnv
       and ticker = "10 * Second" and path = "''/nonexistent/config.toml''"]
    handleReload_keeps_state[where m = "(newMonitor ''test'' noMetrics [])\<lparr>cfgPath := ''/nonexistent/config.toml''\<rparr>"
       and env = stdEnv and ticker = "10 * Second" and path = "''/nonexistent/config.toml''"]
    handleReload_keeps_state[where m = "(newMonitor ''test'' noMetrics [])
           \<lparr>reloadFn := Some (\<lambda>path. (None, Some (Errorf ''malformed configuration'')))\<rparr>"
       and fn = "\<lambda>path. (None, Some (Errorf ''malformed configuration''))" and env = stdEnv
       and ticker = "10 * Second" and path = "''/nonexistent/config.toml''"]
    handleReload_keeps_state[where m = "(newMonitor ''test'' noMetrics [])\<lparr>reloadFn := Some reloadDefault\<rparr>"
       and fn = reloadDefault and c = DefaultConfig and env = stdEnv
       and ticker = "10 * Second" and path = "''/nonexistent/config.toml''"]
  by (simp add: newMonitor_def stdEnv_def LoadConfig_def reloadDefault_def handleReload_def
        DefaultConfig_def Second_def)

text \<open>
  C9 as stated fails. A reload function that returns neither a configuration nor an
  error makes \<open>handleReload\<close> read through a nil pointer, and one that returns a
  configuration with a poll interval of zero makes it call \<open>ticker.Reset\<close> with that
  period: both panic.
\<close>

theorem handleReload_keeps_state_counterexample:
  "handleReload stdEnv (10 * Second) ((newMonitor ''test'' noMetrics [])\<lparr>reloadFn := Some reloadNil\<rparr>)
     = Panicked
   \<and> handleReload stdEnv (10 * Second) ((newMonitor ''test'' noMetrics [])\<lparr>reloadFn := Some reloadZeroInterval\<rparr>)
     = Panicked"
  by (simp add: handleReload_def newMonitor_def reloadNil_def reloadZeroInterval_def DefaultConfig_def
        Second_def Let_def)

section \<open>A run-once cycle\<close>






end
